theory Spec2Isabelle
  imports Main "HOL-Library.AList" "HOL-Library.Char_ord" "HOL-Library.List_Lexorder" "HOL-Library.Sublist"
begin

section \<open>JavaScript values\<close>

text \<open>
  The module works on documents of the Apostrophe document store and on its own options,
  all of them JSON-like JavaScript values. An object keeps its keys in insertion order, so
  it is an association list; assigning to a key that exists keeps the key's place
  (\<^const>\<open>AList.update\<close>), \<^verbatim>\<open>delete\<close> removes it (\<^const>\<open>AList.delete\<close>).

  A string is a list of UTF-16 code units; a \<^typ>\<open>char\<close> stands for one code unit below
  256, so \<^const>\<open>length\<close> is JavaScript's \<^verbatim>\<open>.length\<close>. A number is held as the text that
  \<^verbatim>\<open>Number.prototype.toString\<close> gives for it (\<open>''0''\<close>, \<open>''-1.5''\<close>, \<open>''1e+21''\<close>,
  \<open>''NaN''\<close>, \<open>''Infinity''\<close>, \<open>''-Infinity''\<close>; minus zero prints as \<open>''0''\<close>): the module
  never calculates with a document's numbers, it only tests them for truth and serialises
  them. \<open>JFunction\<close> is a built-in function, such as the methods every object inherits
  from \<^verbatim>\<open>Object.prototype\<close>; it has no enumerable property.
\<close>

datatype jsval =
    JUndefined
  | JNull
  | JBool bool
  | JNum string
  | JStr string
  | JArr "jsval list"
  | JObj "(string \<times> jsval) list"
  | JFunction

type_synonym jsobject = "(string \<times> jsval) list"

text \<open>
  The objects of this theory are plain objects: what they do not have themselves they
  inherit from \<^verbatim>\<open>Object.prototype\<close>, whose members are these methods and the accessor
  \<^verbatim>\<open>__proto__\<close>.
\<close>

definition object_prototype_methods :: "string list" where
  "object_prototype_methods =
     [''constructor'', ''__defineGetter__'', ''__defineSetter__'', ''hasOwnProperty'',
      ''__lookupGetter__'', ''__lookupSetter__'', ''isPrototypeOf'', ''propertyIsEnumerable'',
      ''toString'', ''valueOf'', ''toLocaleString'']"

text \<open>
  \<^verbatim>\<open>obj[key]\<close>: the value of the own property; without one, the inherited method, or for
  \<^verbatim>\<open>__proto__\<close> the prototype itself, an object without enumerable properties, which the
  empty object stands for; \<^verbatim>\<open>undefined\<close> when there is nothing.
\<close>

definition getprop :: "jsobject \<Rightarrow> string \<Rightarrow> jsval" where
  "getprop obj key =
     (case map_of obj key of
        Some v \<Rightarrow> v
      | None \<Rightarrow>
          if key \<in> set object_prototype_methods then JFunction
          else if key = ''__proto__'' then JObj []
          else JUndefined)"


text \<open>
  \<^verbatim>\<open>obj[key] = v\<close> on an object that has no own property \<^verbatim>\<open>__proto__\<close>, as the body of a
  command is: the key \<^verbatim>\<open>__proto__\<close> reaches the inherited setter, which adds no property to
  the object; any other key gets the value, in its place when the object has the key and
  at the end otherwise.
\<close>

definition set_prop :: "string \<Rightarrow> jsval \<Rightarrow> jsobject \<Rightarrow> jsobject" where
  "set_prop key v obj = (if key = ''__proto__'' then obj else AList.update key v obj)"

text \<open>\<^verbatim>\<open>typeof\<close>; both \<^verbatim>\<open>null\<close> and arrays are \<^verbatim>\<open>'object'\<close>.\<close>

fun typeof :: "jsval \<Rightarrow> string" where
  "typeof JUndefined = ''undefined''"
| "typeof JNull = ''object''"
| "typeof (JBool b) = ''boolean''"
| "typeof (JNum n) = ''number''"
| "typeof (JStr s) = ''string''"
| "typeof (JArr xs) = ''object''"
| "typeof (JObj kvs) = ''object''"
| "typeof JFunction = ''function''"

text \<open>\<^verbatim>\<open>value[0]\<close> on an array: \<^verbatim>\<open>undefined\<close> when the array is empty.\<close>

fun first_element :: "jsval list \<Rightarrow> jsval" where
  "first_element [] = JUndefined"
| "first_element (x # xs) = x"

text \<open>Truthiness, as \<^verbatim>\<open>!v\<close>, \<^verbatim>\<open>if (v)\<close>, \<^verbatim>\<open>a || b\<close> and \<^verbatim>\<open>a && b\<close> test it.\<close>

fun truthy :: "jsval \<Rightarrow> bool" where
  "truthy JUndefined = False"
| "truthy JNull = False"
| "truthy (JBool b) = b"
| "truthy (JNum n) = (n \<noteq> ''0'' \<and> n \<noteq> ''NaN'')"
| "truthy (JStr s) = (s \<noteq> [])"
| "truthy (JArr xs) = True"
| "truthy (JObj kvs) = True"
| "truthy JFunction = True"

subsection \<open>\<^verbatim>\<open>JSON.stringify\<close>\<close>

definition hex_digit :: "nat \<Rightarrow> char" where
  "hex_digit n = ''0123456789abcdef'' ! (n mod 16)"

text \<open>
  A string is quoted; the quote, the backslash and the control characters are escaped,
  the control characters without a short escape as \<^verbatim>\<open>\u00xx\<close>.
\<close>

definition json_escape :: "char \<Rightarrow> string" where
  "json_escape c =
     (let n = (of_char c :: nat) in
      if n = 34 then [CHR 0x5C, CHR 0x22]
      else if n = 92 then [CHR 0x5C, CHR 0x5C]
      else if n = 8 then [CHR 0x5C, CHR ''b'']
      else if n = 9 then [CHR 0x5C, CHR ''t'']
      else if n = 10 then [CHR 0x5C, CHR ''n'']
      else if n = 12 then [CHR 0x5C, CHR ''f'']
      else if n = 13 then [CHR 0x5C, CHR ''r'']
      else if n < 32 then [CHR 0x5C, CHR ''u'', CHR ''0'', CHR ''0'', hex_digit (n div 16), hex_digit n]
      else [c])"

definition json_quote :: "string \<Rightarrow> string" where
  "json_quote s = [CHR 0x22] @ concat (map json_escape s) @ [CHR 0x22]"

fun join :: "string \<Rightarrow> string list \<Rightarrow> string" where
  "join sep [] = []"
| "join sep [x] = x"
| "join sep (x # y # ys) = x @ sep @ join sep (y # ys)"

text \<open>
  \<^verbatim>\<open>JSON.stringify(v)\<close> gives \<^verbatim>\<open>undefined\<close> (here \<open>None\<close>) for \<^verbatim>\<open>undefined\<close> and for a
  function. Inside an array such a value is written \<^verbatim>\<open>null\<close>, inside an object a property
  with such a value is left out. A number that is not finite is written \<^verbatim>\<open>null\<close>. The
  values of the document store have no method \<^verbatim>\<open>toJSON\<close> of their own.
\<close>

fun stringify :: "jsval \<Rightarrow> string option" where
  "stringify JUndefined = None"
| "stringify JFunction = None"
| "stringify JNull = Some ''null''"
| "stringify (JBool b) = Some (if b then ''true'' else ''false'')"
| "stringify (JNum n) =
     Some (if n = ''NaN'' \<or> n = ''Infinity'' \<or> n = ''-Infinity'' then ''null'' else n)"
| "stringify (JStr s) = Some (json_quote s)"
| "stringify (JArr xs) =
     Some (''['' @ join '','' (map (\<lambda>x. case stringify x of None \<Rightarrow> ''null'' | Some s \<Rightarrow> s) xs) @ '']'')"
| "stringify (JObj kvs) =
     Some (''{'' @ join '',''
       (concat (map (\<lambda>(k, v). case stringify v of None \<Rightarrow> [] | Some s \<Rightarrow> [json_quote k @ '':'' @ s]) kvs))
       @ ''}'')"

subsection \<open>Errors\<close>

text \<open>
  What the module throws or passes to a callback: its own \<^verbatim>\<open>new Error(message)\<close>, the
  TypeError of the language (a method called on a value that has none, a property read from
  \<^verbatim>\<open>undefined\<close>), and the errors the search engine's client and the document store report.
\<close>

datatype error =
    Error string
  | TypeError
  | BackendError string

section \<open>The field projector\<close>

text \<open>
  The first half of \<^verbatim>\<open>getBulkIndexCommandsForDoc\<close>. The test the loop calls \<^verbatim>\<open>good\<close>:
  \<^verbatim>\<open>
  let good = false;
  if (Array.isArray(value)) {
    if ((typeof value[0]) !== 'object') { good = true; }
  } else if ((typeof value) !== 'object') { good = true; }
  \<close>
\<close>

fun good :: "jsval \<Rightarrow> bool" where
  "good (JArr xs) = (typeof (first_element xs) \<noteq> ''object'')"
| "good v = (typeof v \<noteq> ''object'')"

text \<open>
  The test before the shadow key is written:
  \<^verbatim>\<open>(!doc[field]) || JSON.stringify(doc[field]).length < 4096\<close>.
  The right operand is only evaluated for a truthy value. When \<^verbatim>\<open>JSON.stringify\<close> gives
  \<^verbatim>\<open>undefined\<close> for it, as for a function, reading \<^verbatim>\<open>.length\<close> raises a TypeError; \<open>exact_ok\<close>
  is the test where it does not raise.
\<close>

definition exact_ok :: "jsval \<Rightarrow> bool" where
  "exact_ok v = (\<not> truthy v \<or> (case stringify v of None \<Rightarrow> False | Some s \<Rightarrow> length s < 4096))"

definition exact_key :: "string \<Rightarrow> string" where
  "exact_key field = field @ ''ESExact''"

text \<open>One turn of \<^verbatim>\<open>_.each(self.fields, function(field) { ... })\<close>, on the body so far.\<close>

definition project_field :: "jsobject \<Rightarrow> string \<Rightarrow> jsobject \<Rightarrow> error + jsobject" where
  "project_field doc field body =
     (let v = getprop doc field in
      if good v then
        (let body1 = set_prop field v body in
         if \<not> truthy v then Inr (set_prop (exact_key field) v body1)
         else (case stringify v of
                 None \<Rightarrow> Inl TypeError
               | Some s \<Rightarrow>
                   if length s < 4096 then Inr (set_prop (exact_key field) v body1) else Inr body1))
      else Inr body)"

text \<open>The loop over the fields; an exception leaves it.\<close>

fun each_field :: "jsobject \<Rightarrow> string list \<Rightarrow> jsobject \<Rightarrow> error + jsobject" where
  "each_field doc [] body = Inr body"
| "each_field doc (field # fields) body =
     (case project_field doc field body of
        Inl e \<Rightarrow> Inl e
      | Inr body' \<Rightarrow> each_field doc fields body')"

text \<open>The loop from the empty body, then \<^verbatim>\<open>delete body._id\<close>.\<close>

definition project_fields :: "string list \<Rightarrow> jsobject \<Rightarrow> error + jsobject" where
  "project_fields fields doc = each_field doc fields []"

definition project :: "string list \<Rightarrow> jsobject \<Rightarrow> error + jsobject" where
  "project fields doc =
     (case project_fields fields doc of
        Inl e \<Rightarrow> Inl e
      | Inr body \<Rightarrow> Inr (AList.delete ''_id'' body))"

text \<open>
  A field writes a key of the body when it passes the test and the key is its own or its
  shadow; no field writes the key \<^verbatim>\<open>__proto__\<close>.
\<close>

definition writes :: "jsobject \<Rightarrow> string \<Rightarrow> string \<Rightarrow> bool" where
  "writes doc field key =
     (key \<noteq> ''__proto__'' \<and> good (getprop doc field)
      \<and> (key = field \<or> (key = exact_key field \<and> exact_ok (getprop doc field))))"

section \<open>The module's state\<close>

text \<open>
  What the methods read from \<^verbatim>\<open>self\<close>: the field set and the base index name, fixed by
  \<^verbatim>\<open>construct\<close> and \<^verbatim>\<open>connect\<close>; the table \<^verbatim>\<open>self.indexNamesSeen\<close>, the only part that
  changes; and \<open>workflow\<close>, the keys of \<^verbatim>\<open>self.apos.modules['apostrophe-workflow'].locales\<close>,
  \<open>None\<close> when that module is not there.
\<close>

record self_state =
  fields_list :: "string list"
  docIndex :: string
  indexNamesSeen :: "string \<rightharpoonup> string"
  workflow :: "string list option"

text \<open>
  \<^verbatim>\<open>self.fields = (self.options.fields || [ 'title', 'tags', 'type', 'lowSearchText',
  'highSearchText' ]).concat(self.options.addFields || [])\<close>
\<close>

definition construct_fields :: "string list option \<Rightarrow> string list option \<Rightarrow> string list" where
  "construct_fields opt_fields opt_addFields =
     (case opt_fields of
        None \<Rightarrow> [''title'', ''tags'', ''type'', ''lowSearchText'', ''highSearchText'']
      | Some fs \<Rightarrow> fs)
     @ (case opt_addFields of None \<Rightarrow> [] | Some fs \<Rightarrow> fs)"

text \<open>
  \<^verbatim>\<open>String.prototype.toLowerCase\<close> on code units below 256: the letters A to Z and the
  capital letters of Latin-1 move up by 32.
\<close>

definition lower_char :: "char \<Rightarrow> char" where
  "lower_char c =
     (let n = (of_char c :: nat) in
      if (65 \<le> n \<and> n \<le> 90) \<or> (192 \<le> n \<and> n \<le> 222 \<and> n \<noteq> 215) then char_of (n + 32) else c)"

definition toLowerCase :: "string \<Rightarrow> string" where
  "toLowerCase s = map lower_char s"

text \<open>
  \<^verbatim>\<open>self.baseName = self.options.baseName || self.apos.shortName;
  self.docIndex = self.baseName.toLowerCase() + 'aposdocs';\<close>
\<close>

definition connect_docIndex :: "string option \<Rightarrow> string \<Rightarrow> string" where
  "connect_docIndex opt_baseName shortName =
     (let baseName = (case opt_baseName of
                        None \<Rightarrow> shortName
                      | Some b \<Rightarrow> if b \<noteq> [] then b else shortName)
      in toLowerCase baseName @ ''aposdocs'')"

section \<open>The locale index namer\<close>

text \<open>The class \<^verbatim>\<open>[a-z]\<close> of the regular expression.\<close>

definition is_az :: "char \<Rightarrow> bool" where
  "is_az c = (CHR ''a'' \<le> c \<and> c \<le> CHR ''z'')"

text \<open>\<^verbatim>\<open>locale.replace(/[^a-z]/g, '')\<close>\<close>

definition strip_non_az :: "string \<Rightarrow> string" where
  "strip_non_az s = filter is_az s"

definition collision_message :: "string \<Rightarrow> string \<Rightarrow> string" where
  "collision_message locale seen =
     ''apostrophe-elasticsearch: the locale names '' @ locale @ '' and '' @ seen @
     '' cannot be distinguished purely by their lowercased letters. elasticsearch allows no other characters in index names.''"

text \<open>
  \<^verbatim>\<open>
  self.getLocaleIndex = function(locale) {
    locale = locale.toLowerCase();
    const indexName = self.docIndex + locale.replace(/[^a-z]/g, '');
    if (self.indexNamesSeen[indexName] && (self.indexNamesSeen[indexName] !== locale)) {
      throw new Error(...);
    }
    self.indexNamesSeen[indexName] = locale;
    return indexName;
  };
  \<close>
  The test \<^verbatim>\<open>self.indexNamesSeen[indexName] && ...\<close> is one of truthiness: a name not in
  the table and a name recorded for the empty string both pass. The table starts as \<^verbatim>\<open>{}\<close>;
  an index name has \<^verbatim>\<open>aposdocs\<close> in it (\<^verbatim>\<open>connect\<close>), so it is never the name of something the
  table inherits, and the table is a map from the names recorded to their locales.
\<close>

definition getLocaleIndex :: "self_state \<Rightarrow> string \<Rightarrow> error + (string \<times> self_state)" where
  "getLocaleIndex self locale0 =
     (let locale = toLowerCase locale0;
          indexName = docIndex self @ strip_non_az locale;
          seen = (case indexNamesSeen self indexName of None \<Rightarrow> [] | Some l \<Rightarrow> l)
      in if seen \<noteq> [] \<and> seen \<noteq> locale then Inl (Error (collision_message locale seen))
         else Inr (indexName, self\<lparr>indexNamesSeen := (indexNamesSeen self)(indexName \<mapsto> locale)\<rparr>))"

text \<open>
  \<^verbatim>\<open>_.map(locales, self.getLocaleIndex)\<close>, as \<^verbatim>\<open>refresh\<close> calls it: one call after the other on
  the same table, left at the first exception.
\<close>

fun map_getLocaleIndex :: "self_state \<Rightarrow> string list \<Rightarrow> error + (string list \<times> self_state)" where
  "map_getLocaleIndex self [] = Inr ([], self)"
| "map_getLocaleIndex self (locale # locales) =
     (case getLocaleIndex self locale of
        Inl e \<Rightarrow> Inl e
      | Inr (indexName, self') \<Rightarrow>
          (case map_getLocaleIndex self' locales of
             Inl e \<Rightarrow> Inl e
           | Inr (indexNames, self'') \<Rightarrow> Inr (indexName # indexNames, self'')))"

section \<open>The bulk command builder\<close>

text \<open>The action descriptor \<^verbatim>\<open>{ index: { _index: ..., _type: 'aposDoc', _id: doc._id } }\<close>.\<close>

definition index_action :: "string \<Rightarrow> jsval \<Rightarrow> jsval" where
  "index_action indexName docId =
     JObj [(''index'', JObj [(''_index'', JStr indexName), (''_type'', JStr ''aposDoc''), (''_id'', docId)])]"

text \<open>
  The loop \<^verbatim>\<open>_.each(locales, function(locale) { commands.push(...); commands.push(body); })\<close>;
  an exception of \<^verbatim>\<open>getLocaleIndex\<close> leaves it.
\<close>

fun push_locales ::
  "self_state \<Rightarrow> jsval \<Rightarrow> jsobject \<Rightarrow> string list \<Rightarrow> jsval list \<Rightarrow> error + (jsval list \<times> self_state)" where
  "push_locales self docId body [] commands = Inr (commands, self)"
| "push_locales self docId body (locale # locales) commands =
     (case getLocaleIndex self locale of
        Inl e \<Rightarrow> Inl e
      | Inr (indexName, self') \<Rightarrow>
          push_locales self' docId body locales (commands @ [index_action indexName docId, JObj body]))"

text \<open>
  \<^verbatim>\<open>getBulkIndexCommandsForDoc(req, doc, options)\<close>; neither \<^verbatim>\<open>req\<close> nor \<^verbatim>\<open>options\<close> is
  read. The loop over the fields comes first, and its exception ends the call. A truthy
  \<^verbatim>\<open>doc.workflowLocale\<close> that is not a string has no \<^verbatim>\<open>toLowerCase\<close> (the values of the document
  store have no methods of their own), and the call in \<^verbatim>\<open>getLocaleIndex\<close> raises a TypeError.
\<close>

definition getBulkIndexCommandsForDoc :: "self_state \<Rightarrow> jsobject \<Rightarrow> error + (jsval list \<times> self_state)" where
  "getBulkIndexCommandsForDoc self doc =
     (case project (fields_list self) doc of
        Inl e \<Rightarrow> Inl e
      | Inr body \<Rightarrow>
          if truthy (getprop doc ''workflowLocale'') then
            (case getprop doc ''workflowLocale'' of
               JStr locale \<Rightarrow>
                 (case getLocaleIndex self locale of
                    Inl e \<Rightarrow> Inl e
                  | Inr (indexName, self') \<Rightarrow>
                      Inr ([index_action indexName (getprop doc ''_id''), JObj body], self'))
             | _ \<Rightarrow> Inl TypeError)
          else
            (let locales = (case workflow self of None \<Rightarrow> [''default''] | Some ls \<Rightarrow> ls)
             in push_locales self (getprop doc ''_id'') body locales []))"

section \<open>The index stage\<close>

text \<open>
  The document store is the list of its documents. \<^verbatim>\<open>_id: { $gt: last }\<close> holds for a
  document whose \<^verbatim>\<open>_id\<close> is a string above \<^verbatim>\<open>last\<close> in the order of the code units (a value of
  another type is not compared with a string); \<^verbatim>\<open>sort({ _id: 1 })\<close> puts the matching
  documents in ascending order of \<^verbatim>\<open>_id\<close>, and \<^verbatim>\<open>limit(batchSize)\<close> keeps the first
  \<^verbatim>\<open>batchSize\<close> of them.
\<close>

definition id_gt :: "string \<Rightarrow> jsobject \<Rightarrow> bool" where
  "id_gt last_id d = (case getprop d ''_id'' of JStr s \<Rightarrow> last_id < s | _ \<Rightarrow> False)"

definition string_id :: "jsobject \<Rightarrow> string" where
  "string_id d = (case getprop d ''_id'' of JStr s \<Rightarrow> s | _ \<Rightarrow> [])"

definition find_page :: "jsobject list \<Rightarrow> string \<Rightarrow> nat \<Rightarrow> jsobject list" where
  "find_page store last_id batchSize =
     take batchSize (sort_key string_id (filter (id_gt last_id) store))"

text \<open>\<^verbatim>\<open>const batchSize = self.options.batchSize || 100;\<close>\<close>

definition batchSize_of :: "nat option \<Rightarrow> nat" where
  "batchSize_of opt_batchSize =
     (case opt_batchSize of None \<Rightarrow> 100 | Some n \<Rightarrow> if n = 0 then 100 else n)"

text \<open>
  \<^verbatim>\<open>_.flatten(_.map(docs, function(doc) { return self.getBulkIndexCommandsForDoc(req, doc, {}); }))\<close>
\<close>

fun batch_commands :: "self_state \<Rightarrow> jsobject list \<Rightarrow> error + (jsval list \<times> self_state)" where
  "batch_commands self [] = Inr ([], self)"
| "batch_commands self (doc # docs) =
     (case getBulkIndexCommandsForDoc self doc of
        Inl e \<Rightarrow> Inl e
      | Inr (commands, self') \<Rightarrow>
          (case batch_commands self' docs of
             Inl e \<Rightarrow> Inl e
           | Inr (rest, self'') \<Rightarrow> Inr (commands @ rest, self'')))"

text \<open>
  \<^verbatim>\<open>indexBatch(docs, callback)\<close>: the commands of the page go to \<^verbatim>\<open>self.client.bulk\<close> in one
  call; \<open>bulk\<close> is what the client reports for a body, \<open>None\<close> when the write succeeded.
  The count of documents and the running total only feed the progress message. An
  exception of \<^verbatim>\<open>getBulkIndexCommandsForDoc\<close> ends the stage as well; the result does not tell
  it from an error the client reports.
\<close>

definition indexBatch :: "(jsval list \<Rightarrow> error option) \<Rightarrow> self_state \<Rightarrow> jsobject list \<Rightarrow> error + self_state" where
  "indexBatch bulk self docs =
     (case batch_commands self docs of
        Inl e \<Rightarrow> Inl e
      | Inr (commands, self') \<Rightarrow> (case bulk commands of Some e \<Rightarrow> Inl e | None \<Rightarrow> Inr self'))"

text \<open>
  \<^verbatim>\<open>
  function nextBatch(callback) {
    return self.apos.docs.db.find({ _id: { $gt: last } }).sort({ _id: 1 }).limit(batchSize)
      .toArray(function(err, docs) {
        if (err) { return callback(err); }
        if (!docs.length) { return callback(null); }
        last = docs[docs.length - 1]._id;
        return indexBatch(docs, function(err) {
          if (err) { return callback(err); }
          return nextBatch(callback);
        });
      });
  }
  \<close>
  The result holds the log of the fetch calls, each with the identifier it asked to go
  beyond and the page it got, and the error or the state the stage ends with.
\<close>

function nextBatch ::
  "(jsval list \<Rightarrow> error option) \<Rightarrow> jsobject list \<Rightarrow> nat \<Rightarrow> self_state \<Rightarrow> string
     \<Rightarrow> (string \<times> jsobject list) list \<Rightarrow> (string \<times> jsobject list) list \<times> (error + self_state)" where
  "nextBatch bulk store batchSize self last_id fetches =
     (let docs = find_page store last_id batchSize;
          fetches' = fetches @ [(last_id, docs)]
      in if docs = [] then (fetches', Inr self)
         else (case indexBatch bulk self docs of
                 Inl e \<Rightarrow> (fetches', Inl e)
               | Inr self' \<Rightarrow> nextBatch bulk store batchSize self' (string_id (last docs)) fetches'))"
  by pat_completeness auto
termination
proof (relation "measure (\<lambda>(bulk, store, batchSize, self, last_id, fetches).
    length (filter (id_gt last_id) store))", goal_cases)
  case 1
  show ?case by simp
next
  case (2 bulk store batchSize self last_id fetches docs fetches' self')
  let ?d = "last docs"
  from 2 have ne: "docs \<noteq> []" and eq: "docs = find_page store last_id batchSize"
    by blast+
  have "set docs \<subseteq> set (sort_key string_id (filter (id_gt last_id) store))"
    unfolding eq find_page_def by (rule set_take_subset)
  moreover from ne have "?d \<in> set docs"
    by (rule last_in_set)
  ultimately have mem: "?d \<in> set (filter (id_gt last_id) store)"
    by auto
  then have gt: "id_gt last_id ?d"
    by simp
  then have lt: "last_id < string_id ?d" and not: "\<not> id_gt (string_id ?d) ?d"
    by (auto simp: id_gt_def string_id_def split: jsval.splits)
  have "filter (id_gt (string_id ?d)) store
      = filter (id_gt (string_id ?d)) (filter (id_gt last_id) store)"
    using lt by (auto simp: id_gt_def split: jsval.splits intro!: filter_cong)
  moreover have "length (filter (id_gt (string_id ?d)) (filter (id_gt last_id) store))
      < length (filter (id_gt last_id) store)"
    using mem not by (rule length_filter_less)
  ultimately show ?case
    by simp
qed

text \<open>
  \<^verbatim>\<open>self.index\<close>, from \<^verbatim>\<open>last = ''\<close>. The store is taken to answer every call, so the error
  branches of the two callbacks of the store are not there.
\<close>

definition index :: "(jsval list \<Rightarrow> error option) \<Rightarrow> jsobject list \<Rightarrow> nat option \<Rightarrow> self_state
     \<Rightarrow> (string \<times> jsobject list) list \<times> (error + self_state)" where
  "index bulk store opt_batchSize self = nextBatch bulk store (batchSize_of opt_batchSize) self [] []"

section \<open>The reindex task\<close>

text \<open>
  A stage is a function of the callback style. It ends by calling its callback, with an
  error or with nothing, or it throws: \<^verbatim>\<open>getLocaleIndex\<close> throws its error, and the stages call
  it inside callbacks of the search engine's client and of the document store, where
  nothing catches the exception and the callback of the stage is never called.
\<close>

datatype outcome = CalledBack "error option" | Threw error

text \<open>
  The task runs against a world outside the module: the lock service, and what the
  stages read and write, which is the part \<open>inner\<close>. The world keeps a log of what
  happened, so that the order of the stages and the time the lock is held can be stated.
\<close>

datatype event = Acquired string | Released string | Ran string

record 'w world =
  events :: "event list"
  inner :: 'w

text \<open>\<open>run_stage\<close> notes in the log that the stage has been started.\<close>

definition run_stage :: "string \<Rightarrow> ('w \<Rightarrow> outcome \<times> 'w) \<Rightarrow> 'w world \<Rightarrow> outcome \<times> 'w world" where
  "run_stage name stage w =
     (case stage (inner w) of
        (out, i) \<Rightarrow> (out, w\<lparr>events := events w @ [Ran name], inner := i\<rparr>))"

text \<open>
  \<^verbatim>\<open>async.series(tasks, callback)\<close>: the tasks run one after the other; when a task passes an
  error to its callback no further task runs and the error goes to the final callback.
  When a task throws, its callback is not called, so that no further task runs and the
  final callback is not called either.
\<close>

fun async_series :: "('s \<Rightarrow> outcome \<times> 's) list \<Rightarrow> 's \<Rightarrow> outcome \<times> 's" where
  "async_series [] s = (CalledBack None, s)"
| "async_series (task # tasks) s =
     (case task s of
        (CalledBack None, s') \<Rightarrow> async_series tasks s'
      | (CalledBack (Some e), s') \<Rightarrow> (CalledBack (Some e), s')
      | (Threw e, s') \<Rightarrow> (Threw e, s'))"

text \<open>
  Modelled from the spec: \<^verbatim>\<open>self.apos.locks.withLock\<close> belongs to the Apostrophe core and is
  not in the source of this module. Section 6 gives its contract: \<^verbatim>\<open>withLock(name, fn)\<close> runs
  \<^verbatim>\<open>fn\<close> only while holding \<^verbatim>\<open>name\<close>, and releases unconditionally afterward. The lock is
  held from the event \<open>Acquired\<close> to the event \<open>Released\<close>. The release comes after
  \<^verbatim>\<open>fn\<close> has called back, with or without an error; when \<^verbatim>\<open>fn\<close> never calls back there is no
  afterward.
\<close>

definition withLock ::
  "string \<Rightarrow> ('w world \<Rightarrow> outcome \<times> 'w world) \<Rightarrow> 'w world \<Rightarrow> outcome \<times> 'w world" where
  "withLock name fn w =
     (case fn (w\<lparr>events := events w @ [Acquired name]\<rparr>) of
        (CalledBack result, w') \<Rightarrow> (CalledBack result, w'\<lparr>events := events w' @ [Released name]\<rparr>)
      | (Threw e, w') \<Rightarrow> (Threw e, w'))"

text \<open>
  \<^verbatim>\<open>
  self.reindexTask = function(apos, argv, callback) {
    return self.apos.locks.withLock('apostrophe-elasticsearch-reindex', function(callback) {
      return async.series([ self.dropIndexes, self.createIndexes, self.index, self.refresh ], callback);
    });
  };
  \<close>
  The four stages are arguments, so that what is proved holds whatever they do.
\<close>

definition reindexTask ::
  "('w \<Rightarrow> outcome \<times> 'w) \<Rightarrow> ('w \<Rightarrow> outcome \<times> 'w) \<Rightarrow> ('w \<Rightarrow> outcome \<times> 'w)
     \<Rightarrow> ('w \<Rightarrow> outcome \<times> 'w) \<Rightarrow> 'w world \<Rightarrow> outcome \<times> 'w world" where
  "reindexTask dropIndexes createIndexes index_stage refresh w =
     withLock ''apostrophe-elasticsearch-reindex''
       (async_series
          [run_stage ''dropIndexes'' dropIndexes,
           run_stage ''createIndexes'' createIndexes,
           run_stage ''index'' index_stage,
           run_stage ''refresh'' refresh]) w"

subsection \<open>The first two stages\<close>

text \<open>
  What the search engine's client reports to the callbacks of the calls the two stages
  make: to \<^verbatim>\<open>cat.indices\<close> an error or the text of the catalog, one index name per line
  (the empty text for \<^verbatim>\<open>undefined\<close>); to \<^verbatim>\<open>indices.delete\<close> and to \<^verbatim>\<open>indices.create\<close> an error
  or nothing. The body of \<^verbatim>\<open>indices.create\<close>, the settings of \<^verbatim>\<open>getLocaleSettings\<close> and the
  mappings of the fields, goes to the search engine with the name and decides nothing in
  the module; the model leaves it out.
\<close>

record client =
  cat_indices :: "error + string"
  indices_delete :: "string list \<Rightarrow> error option"
  indices_create :: "string \<Rightarrow> error option"

text \<open>\<^verbatim>\<open>result.split(/\n/)\<close>\<close>

fun split_lines :: "string \<Rightarrow> string list" where
  "split_lines [] = [[]]"
| "split_lines (c # cs) =
     (if c = CHR 0x0A then [] # split_lines cs
      else (case split_lines cs of [] \<Rightarrow> [[c]] | l # ls \<Rightarrow> (c # l) # ls))"

text \<open>
  \<^verbatim>\<open>
  self.dropIndexes = function(callback) {
    return self.client.cat.indices({ h: ['index'] }, function(err, result) {
      if (err) { return callback(err); }
      let indexes = (result || '').split(/\n/);
      indexes = _.filter(indexes, function(index) {
        return index.substr(0, self.docIndex.length) === self.docIndex;
      });
      if (!indexes.length) { return callback(null); }
      return self.client.indices.delete({ index: indexes }, callback);
    });
  };
  \<close>
\<close>

definition dropIndexes :: "client \<Rightarrow> self_state \<Rightarrow> outcome \<times> self_state" where
  "dropIndexes cl self =
     (case cat_indices cl of
        Inl err \<Rightarrow> (CalledBack (Some err), self)
      | Inr result \<Rightarrow>
          (let indexes = filter (\<lambda>index. take (length (docIndex self)) index = docIndex self)
                           (split_lines result)
           in if indexes = [] then (CalledBack None, self)
              else (CalledBack (indices_delete cl indexes), self)))"

text \<open>\<^verbatim>\<open>self.getLocales\<close>\<close>

definition getLocales :: "self_state \<Rightarrow> string list" where
  "getLocales self = (case workflow self of None \<Rightarrow> [''default''] | Some ls \<Rightarrow> ls)"

text \<open>
  \<^verbatim>\<open>
  self.createIndexes = function(callback) {
    const locales = self.getLocales();
    return async.eachSeries(locales, function(locale, callback) {
      ...
      return self.client.indices.create({
        index: self.getLocaleIndex(locale),
        body: { settings: self.getLocaleSettings(locale), mappings: ... }
      }, callback);
    }, callback);
  };
  \<close>
  \<^verbatim>\<open>async.eachSeries\<close> takes the locales one after the other and stops at the first error
  the client reports. \<^verbatim>\<open>getLocaleIndex\<close> is called while the argument of the client is built;
  when it throws, the client is not called and the stage never calls back.
\<close>

fun create_each :: "client \<Rightarrow> self_state \<Rightarrow> string list \<Rightarrow> outcome \<times> self_state" where
  "create_each cl self [] = (CalledBack None, self)"
| "create_each cl self (locale # locales) =
     (case getLocaleIndex self locale of
        Inl e \<Rightarrow> (Threw e, self)
      | Inr (indexName, self') \<Rightarrow>
          (case indices_create cl indexName of
             Some err \<Rightarrow> (CalledBack (Some err), self')
           | None \<Rightarrow> create_each cl self' locales))"

definition createIndexes :: "client \<Rightarrow> self_state \<Rightarrow> outcome \<times> self_state" where
  "createIndexes cl self = create_each cl self (getLocales self)"

section \<open>The settings of a locale's index\<close>










section \<open>Properties of the field projector\<close>

lemma exact_key_inject: "exact_key g = exact_key f \<longleftrightarrow> g = f"
  by (simp add: exact_key_def)

lemma exact_key_not_id: "exact_key f \<noteq> ''_id''"
proof
  assume "exact_key f = ''_id''"
  then have "length (exact_key f) = length ''_id''"
    by simp
  then show False
    by (simp add: exact_key_def)
qed

lemma exact_key_not_proto: "exact_key f \<noteq> ''__proto__''"
proof
  assume "exact_key f = ''__proto__''"
  then have "last (exact_key f) = last ''__proto__''"
    by simp
  then show False
    by (simp add: exact_key_def)
qed

lemma map_of_set_prop:
  "map_of (set_prop key v body) k = (if k = key \<and> key \<noteq> ''__proto__'' then Some v else map_of body k)"
  by (simp add: set_prop_def update_conv')

lemma stringify_None: "stringify v = None \<longleftrightarrow> v = JUndefined \<or> v = JFunction"
  by (cases v) simp_all

text \<open>A turn of the loop raises exactly for a function.\<close>

lemma project_field_Inl:
  "project_field doc f body = Inl e \<longleftrightarrow> e = TypeError \<and> getprop doc f = JFunction"
proof (cases "getprop doc f = JFunction")
  case True
  then show ?thesis
    by (auto simp: project_field_def Let_def)
next
  case False
  then have "truthy (getprop doc f) \<Longrightarrow> stringify (getprop doc f) \<noteq> None"
    by (auto simp: stringify_None)
  with False show ?thesis
    by (auto simp: project_field_def Let_def split: option.splits)
qed

lemma map_of_project_field:
  assumes "project_field doc f body = Inr body'"
  shows "map_of body' k = (if writes doc f k then Some (getprop doc f) else map_of body k)"
  using assms
  by (auto simp: project_field_def writes_def exact_ok_def Let_def map_of_set_prop exact_key_not_proto
      exact_key_not_proto [symmetric] split: if_splits option.splits)

lemma map_of_each_field:
  "each_field doc fs body = Inr body' \<Longrightarrow>
   map_of body' k =
     (case filter (\<lambda>f. writes doc f k) fs of
        [] \<Rightarrow> map_of body k
      | w # ws \<Rightarrow> Some (getprop doc (last (w # ws))))"
proof (induction fs arbitrary: body)
  case Nil
  then show ?case by simp
next
  case (Cons f fs)
  from Cons.prems obtain body1 where
    1: "project_field doc f body = Inr body1" and 2: "each_field doc fs body1 = Inr body'"
    by (auto split: sum.splits)
  show ?case
    using Cons.IH [OF 2] map_of_project_field [OF 1, of k]
    by (simp split: list.splits)
qed

lemma each_field_returns_iff:
  "(\<exists>body'. each_field doc fs body = Inr body') \<longleftrightarrow> (\<forall>f \<in> set fs. getprop doc f \<noteq> JFunction)"
proof (induction fs arbitrary: body)
  case Nil
  then show ?case by simp
next
  case (Cons f fs)
  show ?case
  proof (cases "project_field doc f body")
    case (Inl e)
    with project_field_Inl [of doc f body e] show ?thesis
      by simp
  next
    case (Inr body1)
    then have "getprop doc f \<noteq> JFunction"
      using project_field_Inl [of doc f body TypeError] by auto
    with Inr Cons.IH [of body1] show ?thesis
      by simp
  qed
qed

text \<open>The projection returns a body unless a configured field reads as a function.\<close>

lemma project_returns_iff:
  "(\<exists>body. project fs doc = Inr body) \<longleftrightarrow> (\<forall>f \<in> set fs. getprop doc f \<noteq> JFunction)"
proof -
  have "(\<exists>body. project fs doc = Inr body) \<longleftrightarrow> (\<exists>body. each_field doc fs [] = Inr body)"
    by (auto simp: project_def project_fields_def split: sum.splits)
  then show ?thesis
    by (simp add: each_field_returns_iff)
qed

lemma project_Inl:
  assumes "project fs doc = Inl e"
  shows "e = TypeError"
proof -
  have "each_field doc fs body = Inl e \<Longrightarrow> e = TypeError" for body
  proof (induction fs arbitrary: body)
    case Nil
    then show ?case by simp
  next
    case (Cons f fs)
    then show ?case
      using project_field_Inl [of doc f body e] by (auto split: sum.splits)
  qed
  with assms show ?thesis
    by (auto simp: project_def project_fields_def split: sum.splits)
qed

lemma map_of_project:
  assumes "project fs doc = Inr body"
  shows "map_of body k =
     (if k = ''_id'' then None
      else case filter (\<lambda>f. writes doc f k) fs of
        [] \<Rightarrow> None
      | w # ws \<Rightarrow> Some (getprop doc (last (w # ws))))"
proof -
  from assms obtain body0 where
    0: "each_field doc fs [] = Inr body0" and b: "body = AList.delete ''_id'' body0"
    by (auto simp: project_def project_fields_def split: sum.splits)
  show ?thesis
    using map_of_each_field [OF 0, of k]
    by (simp add: b delete_conv' split: list.splits)
qed

lemma project_key_iff:
  assumes "project fs doc = Inr body"
  shows "k \<in> fst ` set body \<longleftrightarrow> k \<noteq> ''_id'' \<and> (\<exists>f \<in> set fs. writes doc f k)"
proof -
  have "k \<in> fst ` set body \<longleftrightarrow> map_of body k \<noteq> None"
    by (simp add: map_of_eq_None_iff)
  also have "\<dots> \<longleftrightarrow> k \<noteq> ''_id'' \<and> filter (\<lambda>f. writes doc f k) fs \<noteq> []"
    by (simp add: map_of_project [OF assms] split: list.splits)
  also have "\<dots> \<longleftrightarrow> k \<noteq> ''_id'' \<and> (\<exists>f \<in> set fs. writes doc f k)"
    by (simp add: filter_empty_conv)
  finally show ?thesis .
qed

lemma project_value:
  assumes "project fs doc = Inr body"
    and "k \<noteq> ''_id''" and "f \<in> set fs" and "writes doc f k"
    and "\<forall>g \<in> set fs. writes doc g k \<longrightarrow> getprop doc g = v"
  shows "map_of body k = Some v"
proof -
  let ?ws = "filter (\<lambda>f. writes doc f k) fs"
  from assms(3,4) have ne: "?ws \<noteq> []"
    by (auto simp: filter_empty_conv)
  then have "last ?ws \<in> set ?ws"
    by (rule last_in_set)
  then have "getprop doc (last ?ws) = v"
    using assms(5) by auto
  with ne assms(2) show ?thesis
    by (cases ?ws) (simp_all add: map_of_project [OF assms(1)])
qed

lemma good_shape:
  "good v =
     (case v of
        JNull \<Rightarrow> False
      | JObj kvs \<Rightarrow> False
      | JArr [] \<Rightarrow> True
      | JArr (x # xs) \<Rightarrow> (case x of JNull \<Rightarrow> False | JArr ys \<Rightarrow> False | JObj kvs \<Rightarrow> False | _ \<Rightarrow> True)
      | _ \<Rightarrow> True)"
  by (simp split: jsval.splits list.splits)

lemma exact_ok_unfold:
  "exact_ok v \<longleftrightarrow> \<not> truthy v \<or> (\<exists>s. stringify v = Some s \<and> length s < 4096)"
  by (simp add: exact_ok_def split: option.splits)

lemma own_key_value:
  assumes "project fs doc = Inr body"
    and "f \<in> set fs" and "f \<noteq> ''_id''" and "f \<noteq> ''__proto__''" and "good (getprop doc f)"
    and "\<forall>g \<in> set fs. exact_key g \<noteq> f"
  shows "map_of body f = Some (getprop doc f)"
proof (rule project_value [OF assms(1) assms(3) assms(2)])
  show "writes doc f f"
    using assms(4,5) by (simp add: writes_def)
  show "\<forall>g \<in> set fs. writes doc g f \<longrightarrow> getprop doc g = getprop doc f"
    using assms(6) by (auto simp: writes_def)
qed

lemma shadow_key_value:
  assumes "project fs doc = Inr body"
    and "f \<in> set fs" and "good (getprop doc f)" and "exact_ok (getprop doc f)"
    and "exact_key f \<notin> set fs"
  shows "map_of body (exact_key f) = Some (getprop doc f)"
proof (rule project_value [OF assms(1) exact_key_not_id assms(2)])
  show "writes doc f (exact_key f)"
    using assms(3,4) by (simp add: writes_def exact_key_not_proto)
  show "\<forall>g \<in> set fs. writes doc g (exact_key f) \<longrightarrow> getprop doc g = getprop doc f"
    using assms(5) by (auto simp: writes_def exact_key_inject)
qed

lemma shadow_key_absent:
  assumes "project fs doc = Inr body"
    and "\<not> (good (getprop doc f) \<and> exact_ok (getprop doc f))" and "exact_key f \<notin> set fs"
  shows "map_of body (exact_key f) = None"
proof -
  have "\<not> (\<exists>g \<in> set fs. writes doc g (exact_key f))"
    using assms(2,3) by (auto simp: writes_def exact_key_inject)
  then have "exact_key f \<notin> fst ` set body"
    by (simp add: project_key_iff [OF assms(1)])
  then show ?thesis
    by (simp add: map_of_eq_None_iff)
qed

text \<open>No default field is the shadow key of another.\<close>

lemma default_fields_no_clash:
  "list_all (\<lambda>g. exact_key g \<notin> set (construct_fields None None)) (construct_fields None None)"
  by (simp add: construct_fields_def exact_key_def)

text \<open>
  What a name reads as on a document that has no own property of that name: a method of
  \<^verbatim>\<open>Object.prototype\<close>, the prototype itself, or \<^verbatim>\<open>undefined\<close>.
\<close>

lemma getprop_absent:
  assumes "map_of doc f = None"
  shows "getprop doc f =
           (if f \<in> set object_prototype_methods then JFunction
            else if f = ''__proto__'' then JObj [] else JUndefined)"
  using assms by (simp add: getprop_def)

section \<open>Claims about the field projector\<close>

text \<open>
  C10. A configured field that the document does not have, and that an object does not
  inherit either, is still projected: its value \<^verbatim>\<open>undefined\<close> passes the test of \<^verbatim>\<open>typeof\<close>,
  and \<^verbatim>\<open>!undefined\<close> lets the shadow key in, so the projection returns a body that holds
  both the field's key and its shadow key, each bound to \<^verbatim>\<open>undefined\<close>. This is so when no
  configured field reads as a function on the document (for such a field the loop raises a
  TypeError); when the field is not \<^verbatim>\<open>_id\<close>, which is deleted from the body afterwards; and
  when the field is not the shadow key of a configured field and its own shadow key is not
  a configured field, so that no other turn of the loop writes the two keys.
\<close>

theorem absent_field_projected:
  assumes "f \<in> set fs" and "map_of doc f = None"
    and "f \<notin> set object_prototype_methods" and "f \<noteq> ''__proto__''"
    and "f \<noteq> ''_id''"
    and "\<forall>g \<in> set fs. exact_key g \<noteq> f" and "exact_key f \<notin> set fs"
    and "\<forall>g \<in> set fs. getprop doc g \<noteq> JFunction"
  shows "\<exists>body. project fs doc = Inr body
           \<and> map_of body f = Some JUndefined \<and> map_of body (exact_key f) = Some JUndefined"
proof -
  from assms(8) obtain body where b: "project fs doc = Inr body"
    using project_returns_iff [of fs doc] by blast
  have undef: "getprop doc f = JUndefined"
    using assms(2,3,4) by (simp add: getprop_def)
  have g: "good (getprop doc f)" and e: "exact_ok (getprop doc f)"
    by (simp_all add: undef exact_ok_def)
  have "map_of body f = Some (getprop doc f)"
    using b assms(1,4,5,6) g by (simp add: own_key_value)
  moreover have "map_of body (exact_key f) = Some (getprop doc f)"
    using b assms(1,7) g e by (simp add: shadow_key_value)
  ultimately show ?thesis
    using b by (simp add: undef)
qed

theorem absent_field_projected_witness:
  "''title'' \<in> set [''title'', ''tags'', ''tagsESExact'']
   \<and> map_of [(''_id'', JStr ''x''), (''tags'', JStr ''a'')] ''title'' = None
   \<and> ''title'' \<notin> set object_prototype_methods \<and> ''title'' \<noteq> ''__proto__'' \<and> ''title'' \<noteq> ''_id''
   \<and> exact_key ''title'' \<noteq> ''title'' \<and> exact_key ''tags'' \<noteq> ''title''
   \<and> exact_key ''tagsESExact'' \<noteq> ''title''
   \<and> exact_key ''title'' \<notin> set [''title'', ''tags'', ''tagsESExact'']
   \<and> getprop [(''_id'', JStr ''x''), (''tags'', JStr ''a'')] ''title'' \<noteq> JFunction
   \<and> getprop [(''_id'', JStr ''x''), (''tags'', JStr ''a'')] ''tags'' \<noteq> JFunction
   \<and> getprop [(''_id'', JStr ''x''), (''tags'', JStr ''a'')] ''tagsESExact'' \<noteq> JFunction
   \<and> (\<exists>body. project [''title'', ''tags'', ''tagsESExact''] [(''_id'', JStr ''x''), (''tags'', JStr ''a'')]
               = Inr body
        \<and> map_of body ''title'' = Some JUndefined
        \<and> map_of body (exact_key ''title'') = Some JUndefined)"
proof -
  have h1: "''title'' \<in> set [''title'', ''tags'', ''tagsESExact'']" by simp
  have h2: "map_of [(''_id'', JStr ''x''), (''tags'', JStr ''a'')] ''title'' = None" by simp
  have h3: "''title'' \<notin> set object_prototype_methods" by (simp add: object_prototype_methods_def)
  have h4: "''title'' \<noteq> ''__proto__''" and h5: "''title'' \<noteq> ''_id''" by simp_all
  have h6: "\<forall>g \<in> set [''title'', ''tags'', ''tagsESExact'']. exact_key g \<noteq> ''title''"
    by (simp add: exact_key_def)
  have h7: "exact_key ''title'' \<notin> set [''title'', ''tags'', ''tagsESExact'']"
    by (simp add: exact_key_def)
  have h8: "\<forall>g \<in> set [''title'', ''tags'', ''tagsESExact''].
      getprop [(''_id'', JStr ''x''), (''tags'', JStr ''a'')] g \<noteq> JFunction"
    by (simp add: getprop_def object_prototype_methods_def)
  show ?thesis
    using h1 h2 h3 h4 h5 h6 h7 h8 absent_field_projected [OF h1 h2 h3 h4 h5 h6 h7 h8] by simp
qed

theorem absent_field_projected_counterexample:
  "project [''title'', ''titleESExact''] [(''_id'', JStr ''x''), (''titleESExact'', JStr ''v'')]
     = Inr [(''title'', JUndefined), (''titleESExact'', JStr ''v''), (''titleESExactESExact'', JStr ''v'')]
   \<and> project [''titleESExact'', ''title''] [(''_id'', JStr ''x''), (''title'', JStr ''v'')]
     = Inr [(''titleESExact'', JStr ''v''), (''titleESExactESExact'', JUndefined), (''title'', JStr ''v'')]
   \<and> project [''title'', ''_id''] [(''title'', JStr ''t'')]
     = Inr [(''title'', JStr ''t''), (''titleESExact'', JStr ''t''), (''_idESExact'', JUndefined)]
   \<and> project [''constructor''] [(''_id'', JStr ''x'')] = Inl TypeError
   \<and> project [''title'', ''toString''] [(''_id'', JStr ''x'')] = Inl TypeError
   \<and> project [''__proto__''] [(''_id'', JStr ''x'')] = Inr []"
  by code_simp

text \<open>
  C2. When no configured field reads as a function on the document, the projection returns
  a body. A configured field other than \<^verbatim>\<open>_id\<close>, whose name is not the shadow key of a
  configured field, and which is not an own property \<^verbatim>\<open>__proto__\<close> of the document, is in
  that body if and only if \<^verbatim>\<open>typeof\<close> does not call its value an object: the value is
  \<^verbatim>\<open>undefined\<close> (the document lacks the field), a boolean, a number or a string, or it is an
  array that is empty or whose first element is one of these or a function. Then the body
  holds the document's value unchanged. A value \<^verbatim>\<open>null\<close>, an object, and an array whose first
  element is \<^verbatim>\<open>null\<close>, an object or an array are left out. The body never has the key
  \<^verbatim>\<open>_id\<close>.
\<close>

theorem field_in_body_iff:
  assumes "\<forall>g \<in> set fs. getprop doc g \<noteq> JFunction"
    and "f \<in> set fs" and "f \<noteq> ''_id''" and "\<forall>g \<in> set fs. exact_key g \<noteq> f"
    and "f = ''__proto__'' \<longrightarrow> map_of doc f = None"
  shows "\<exists>body. project fs doc = Inr body
       \<and> (f \<in> fst ` set body \<longleftrightarrow>
           (case getprop doc f of
              JNull \<Rightarrow> False
            | JObj kvs \<Rightarrow> False
            | JArr [] \<Rightarrow> True
            | JArr (x # xs) \<Rightarrow>
                (case x of JNull \<Rightarrow> False | JArr ys \<Rightarrow> False | JObj kvs \<Rightarrow> False | _ \<Rightarrow> True)
            | _ \<Rightarrow> True))
       \<and> (f \<in> fst ` set body \<longrightarrow> map_of body f = Some (getprop doc f))
       \<and> ''_id'' \<notin> fst ` set body"
proof -
  from assms(1) obtain body where b: "project fs doc = Inr body"
    using project_returns_iff [of fs doc] by blast
  have proto: "\<not> good (getprop doc f)" if "f = ''__proto__''"
    using that assms(5) by (simp add: getprop_def object_prototype_methods_def)
  have "(\<exists>g \<in> set fs. writes doc g f) \<longleftrightarrow> good (getprop doc f)"
    using assms(2,4) proto by (auto simp: writes_def)
  then have iff: "f \<in> fst ` set body \<longleftrightarrow> good (getprop doc f)"
    using assms(3) by (simp add: project_key_iff [OF b])
  have "map_of body f = Some (getprop doc f)" if "good (getprop doc f)"
    using that b assms(2,3,4) proto by (intro own_key_value) auto
  moreover have "''_id'' \<notin> fst ` set body"
    by (simp add: project_key_iff [OF b])
  ultimately have "(f \<in> fst ` set body \<longleftrightarrow> good (getprop doc f))
       \<and> (f \<in> fst ` set body \<longrightarrow> map_of body f = Some (getprop doc f))
       \<and> ''_id'' \<notin> fst ` set body"
    using iff by blast
  then show ?thesis
    unfolding good_shape using b by blast
qed

theorem field_in_body_iff_witness:
  "getprop [(''_id'', JStr ''x''), (''title'', JNull), (''tags'', JArr [JStr ''a'', JStr ''b''])] ''title''
     \<noteq> JFunction
   \<and> getprop [(''_id'', JStr ''x''), (''title'', JNull), (''tags'', JArr [JStr ''a'', JStr ''b''])] ''tags''
     \<noteq> JFunction
   \<and> ''tags'' \<in> set [''title'', ''tags''] \<and> ''tags'' \<noteq> ''_id''
   \<and> exact_key ''title'' \<noteq> ''tags'' \<and> exact_key ''tags'' \<noteq> ''tags''
   \<and> ''tags'' \<noteq> ''__proto__''
   \<and> (\<exists>body. project [''title'', ''tags'']
                 [(''_id'', JStr ''x''), (''title'', JNull), (''tags'', JArr [JStr ''a'', JStr ''b''])]
               = Inr body
        \<and> ''tags'' \<in> fst ` set body
        \<and> map_of body ''tags'' = Some (JArr [JStr ''a'', JStr ''b''])
        \<and> ''_id'' \<notin> fst ` set body)"
proof -
  let ?doc = "[(''_id'', JStr ''x''), (''title'', JNull), (''tags'', JArr [JStr ''a'', JStr ''b''])]"
  have h1: "\<forall>g \<in> set [''title'', ''tags'']. getprop ?doc g \<noteq> JFunction"
    by (simp add: getprop_def)
  have h2: "''tags'' \<in> set [''title'', ''tags'']" by simp
  have h3: "''tags'' \<noteq> ''_id''" by simp
  have h4: "\<forall>g \<in> set [''title'', ''tags'']. exact_key g \<noteq> ''tags''"
    by (simp add: exact_key_def)
  have h5: "''tags'' = ''__proto__'' \<longrightarrow> map_of ?doc ''tags'' = None"
    by simp
  have v: "getprop ?doc ''tags'' = JArr [JStr ''a'', JStr ''b'']"
    by (simp add: getprop_def)
  show ?thesis
    using h1 h2 h3 h4 field_in_body_iff [OF h1 h2 h3 h4 h5]
    by (auto simp: v)
qed

theorem field_in_body_counterexample:
  "project [''title''] [(''_id'', JStr ''x''), (''title'', JNull)] = Inr []
   \<and> project [''tags''] [(''_id'', JStr ''x''), (''tags'', JArr [JNull, JStr ''a''])] = Inr []
   \<and> project [''title''] [(''_id'', JStr ''x'')]
     = Inr [(''title'', JUndefined), (''titleESExact'', JUndefined)]
   \<and> project [''title'', ''_id''] [(''_id'', JStr ''x''), (''title'', JStr ''t'')]
     = Inr [(''title'', JStr ''t''), (''titleESExact'', JStr ''t''), (''_idESExact'', JStr ''x'')]
   \<and> project [''title'', ''titleESExact'']
        [(''_id'', JStr ''x''), (''title'', JStr ''t''), (''titleESExact'', JObj [(''a'', JStr ''b'')])]
     = Inr [(''title'', JStr ''t''), (''titleESExact'', JStr ''t'')]
   \<and> project [''title'', ''constructor''] [(''_id'', JStr ''x''), (''title'', JStr ''t'')] = Inl TypeError
   \<and> project [''__proto__''] [(''_id'', JStr ''x''), (''__proto__'', JStr ''p'')]
     = Inr [(''__proto__ESExact'', JStr ''p'')]"
  by code_simp

section \<open>Properties of the locale index namer and of the bulk command builder\<close>

lemma getLocaleIndex_Inr:
  assumes "getLocaleIndex self locale = Inr (indexName, self')"
  shows "indexName = docIndex self @ strip_non_az (toLowerCase locale)"
    and "self' = self\<lparr>indexNamesSeen := (indexNamesSeen self)(indexName \<mapsto> toLowerCase locale)\<rparr>"
  using assms by (auto simp: getLocaleIndex_def Let_def split: if_splits)

lemma getLocaleIndex_Inl:
  assumes "getLocaleIndex self locale = Inl e"
  shows "\<exists>seen. indexNamesSeen self (docIndex self @ strip_non_az (toLowerCase locale)) = Some seen
           \<and> seen \<noteq> [] \<and> seen \<noteq> toLowerCase locale
           \<and> e = Error (collision_message (toLowerCase locale) seen)"
  using assms by (auto simp: getLocaleIndex_def Let_def split: if_splits option.splits)

lemma getLocaleIndex_unseen:
  assumes "indexNamesSeen self (docIndex self @ strip_non_az (toLowerCase locale)) = None"
  shows "getLocaleIndex self locale =
           Inr (docIndex self @ strip_non_az (toLowerCase locale),
                self\<lparr>indexNamesSeen := (indexNamesSeen self)
                  (docIndex self @ strip_non_az (toLowerCase locale) \<mapsto> toLowerCase locale)\<rparr>)"
  using assms by (simp add: getLocaleIndex_def Let_def)

lemma push_locales_Inr:
  assumes "push_locales self docId body locales commands = Inr (commands', self')"
  shows "commands' = commands @ concat (map (\<lambda>loc.
            [index_action (docIndex self @ strip_non_az (toLowerCase loc)) docId, JObj body]) locales)
         \<and> docIndex self' = docIndex self \<and> fields_list self' = fields_list self
         \<and> workflow self' = workflow self"
  using assms
proof (induction locales arbitrary: self commands)
  case Nil
  then show ?case by simp
next
  case (Cons loc locales)
  from Cons.prems obtain indexName self1 where
    g: "getLocaleIndex self loc = Inr (indexName, self1)"
    and p: "push_locales self1 docId body locales
              (commands @ [index_action indexName docId, JObj body]) = Inr (commands', self')"
    by (auto split: sum.splits)
  from getLocaleIndex_Inr [OF g] have
    n: "indexName = docIndex self @ strip_non_az (toLowerCase loc)"
    and s: "docIndex self1 = docIndex self" "fields_list self1 = fields_list self"
      "workflow self1 = workflow self"
    by simp_all
  from Cons.IH [OF p] show ?case
    by (simp add: n s)
qed

lemma push_locales_Inl:
  assumes "push_locales self docId body locales commands = Inl e"
  shows "\<exists>loc seen. e = Error (collision_message loc seen)"
  using assms
proof (induction locales arbitrary: self commands)
  case Nil
  then show ?case by simp
next
  case (Cons loc locales)
  show ?case
  proof (cases "getLocaleIndex self loc")
    case (Inl e')
    with Cons.prems have "e = e'" by simp
    with getLocaleIndex_Inl [OF Inl] show ?thesis by blast
  next
    case (Inr r)
    with Cons.prems Cons.IH show ?thesis
      by (cases r) auto
  qed
qed

text \<open>
  The commands of a call that returns: the projection has returned a body, and each target
  locale gives an action descriptor followed by that body.
\<close>

lemma getBulkIndexCommandsForDoc_Inr:
  assumes "getBulkIndexCommandsForDoc self doc = Inr (commands, self')"
  shows "\<exists>body. project (fields_list self) doc = Inr body
         \<and> commands = concat (map (\<lambda>loc.
            [index_action (docIndex self @ strip_non_az (toLowerCase loc)) (getprop doc ''_id''),
             JObj body])
          (if truthy (getprop doc ''workflowLocale'')
           then (case getprop doc ''workflowLocale'' of JStr loc \<Rightarrow> [loc] | _ \<Rightarrow> [])
           else (case workflow self of None \<Rightarrow> [''default''] | Some ls \<Rightarrow> ls)))"
proof -
  from assms obtain body where b: "project (fields_list self) doc = Inr body"
    by (auto simp: getBulkIndexCommandsForDoc_def split: sum.splits)
  show ?thesis
  proof (cases "truthy (getprop doc ''workflowLocale'')")
    case True
    with assms b obtain loc indexName where
      w: "getprop doc ''workflowLocale'' = JStr loc"
      and g: "getLocaleIndex self loc = Inr (indexName, self')"
      and c: "commands = [index_action indexName (getprop doc ''_id''), JObj body]"
      by (auto simp: getBulkIndexCommandsForDoc_def Let_def split: jsval.splits sum.splits)
    from getLocaleIndex_Inr(1) [OF g] c w True b show ?thesis
      by simp
  next
    case False
    with assms b have "push_locales self (getprop doc ''_id'') body
        (case workflow self of None \<Rightarrow> [''default''] | Some ls \<Rightarrow> ls) [] = Inr (commands, self')"
      by (simp add: getBulkIndexCommandsForDoc_def Let_def)
    from push_locales_Inr [OF this] False b show ?thesis
      by simp
  qed
qed

lemma lower_en: "toLowerCase ''en'' = ''en''"
  by code_simp

lemma strip_en: "strip_non_az ''en'' = ''en''"
  by code_simp

lemma lower_fr: "toLowerCase ''fr'' = ''fr''"
  by code_simp

lemma strip_fr: "strip_non_az ''fr'' = ''fr''"
  by code_simp

lemma strip_non_az_letters: "list_all is_az (strip_non_az s)"
  by (simp add: strip_non_az_def list_all_iff)

lemma getLocaleIndex_letters:
  assumes "getLocaleIndex self loc = Inr (indexName, self')"
  shows "\<exists>suffix_part. indexName = docIndex self @ suffix_part \<and> list_all is_az suffix_part"
  using getLocaleIndex_Inr(1) [OF assms] strip_non_az_letters by blast

section \<open>Claims about the bulk command builder\<close>

text \<open>
  C9. The key \<^verbatim>\<open>_id\<close> is in no emitted body: every command that
  \<^verbatim>\<open>getBulkIndexCommandsForDoc\<close> returns is an action descriptor carrying the document's
  identifier followed by the projected body, from which \<^verbatim>\<open>_id\<close> has been deleted. The
  shadow key \<^verbatim>\<open>_idESExact\<close> is not deleted; it is absent when neither \<^verbatim>\<open>_id\<close> nor
  \<^verbatim>\<open>_idESExact\<close> is a configured field.
\<close>

theorem identifier_not_in_body:
  assumes "getBulkIndexCommandsForDoc self doc = Inr (commands, self')"
  shows "\<exists>body. project (fields_list self) doc = Inr body
       \<and> (\<exists>indexNames. commands = concat (map (\<lambda>indexName.
            [index_action indexName (getprop doc ''_id''), JObj body])
            indexNames))
       \<and> map_of body ''_id'' = None
       \<and> (''_id'' \<notin> set (fields_list self) \<and> ''_idESExact'' \<notin> set (fields_list self)
            \<longrightarrow> map_of body ''_idESExact'' = None)"
proof -
  let ?locales = "if truthy (getprop doc ''workflowLocale'')
           then (case getprop doc ''workflowLocale'' of JStr loc \<Rightarrow> [loc] | _ \<Rightarrow> [])
           else (case workflow self of None \<Rightarrow> [''default''] | Some ls \<Rightarrow> ls)"
  from getBulkIndexCommandsForDoc_Inr [OF assms] obtain body where
    b: "project (fields_list self) doc = Inr body"
    and c: "commands = concat (map (\<lambda>loc.
            [index_action (docIndex self @ strip_non_az (toLowerCase loc)) (getprop doc ''_id''),
             JObj body]) ?locales)"
    by blast
  have "commands = concat (map (\<lambda>indexName.
            [index_action indexName (getprop doc ''_id''), JObj body])
            (map (\<lambda>loc. docIndex self @ strip_non_az (toLowerCase loc)) ?locales))"
    unfolding c map_map comp_def ..
  then have 1: "\<exists>indexNames. commands = concat (map (\<lambda>indexName.
            [index_action indexName (getprop doc ''_id''), JObj body])
            indexNames)" ..
  have 2: "map_of body ''_id'' = None"
    by (simp add: map_of_project [OF b])
  have 3: "map_of body ''_idESExact'' = None"
    if "''_id'' \<notin> set (fields_list self)" and "''_idESExact'' \<notin> set (fields_list self)"
  proof -
    have "\<not> (\<exists>g \<in> set (fields_list self). writes doc g ''_idESExact'')"
      using that by (auto simp: writes_def exact_key_def)
    then have "''_idESExact'' \<notin> fst ` set body"
      by (simp add: project_key_iff [OF b])
    then show ?thesis
      by (simp add: map_of_eq_None_iff)
  qed
  from b 1 2 3 show ?thesis by blast
qed

theorem identifier_not_in_body_witness:
  "getBulkIndexCommandsForDoc
     \<lparr>fields_list = [''title''], docIndex = ''siteaposdocs'', indexNamesSeen = Map.empty, workflow = None\<rparr>
     [(''_id'', JStr ''x''), (''title'', JStr ''t''), (''workflowLocale'', JStr ''en'')]
   = Inr ([index_action ''siteaposdocsen'' (JStr ''x''),
           JObj [(''title'', JStr ''t''), (''titleESExact'', JStr ''t'')]],
          \<lparr>fields_list = [''title''], docIndex = ''siteaposdocs'',
           indexNamesSeen = [''siteaposdocsen'' \<mapsto> ''en''], workflow = None\<rparr>)
   \<and> ''_id'' \<notin> set [''title''] \<and> ''_idESExact'' \<notin> set [''title'']
   \<and> (\<exists>body. project [''title''] [(''_id'', JStr ''x''), (''title'', JStr ''t''), (''workflowLocale'', JStr ''en'')]
               = Inr body
        \<and> map_of body ''_id'' = None \<and> map_of body ''_idESExact'' = None)"
proof -
  have p: "project [''title''] [(''_id'', JStr ''x''), (''title'', JStr ''t''), (''workflowLocale'', JStr ''en'')]
      = Inr [(''title'', JStr ''t''), (''titleESExact'', JStr ''t'')]"
    by code_simp
  have h: "getBulkIndexCommandsForDoc
     \<lparr>fields_list = [''title''], docIndex = ''siteaposdocs'', indexNamesSeen = Map.empty, workflow = None\<rparr>
     [(''_id'', JStr ''x''), (''title'', JStr ''t''), (''workflowLocale'', JStr ''en'')]
   = Inr ([index_action ''siteaposdocsen'' (JStr ''x''),
           JObj [(''title'', JStr ''t''), (''titleESExact'', JStr ''t'')]],
          \<lparr>fields_list = [''title''], docIndex = ''siteaposdocs'',
           indexNamesSeen = [''siteaposdocsen'' \<mapsto> ''en''], workflow = None\<rparr>)"
    by (simp add: getBulkIndexCommandsForDoc_def p getprop_def getLocaleIndex_def lower_en strip_en Let_def)
  show ?thesis
    using h identifier_not_in_body [OF h] by auto
qed

theorem identifier_not_in_body_counterexample:
  "map_sum id fst (getBulkIndexCommandsForDoc
     \<lparr>fields_list = [''title'', ''_id''], docIndex = ''siteaposdocs'', indexNamesSeen = Map.empty,
      workflow = None\<rparr>
     [(''_id'', JStr ''x''), (''title'', JStr ''t''), (''workflowLocale'', JStr ''en'')])
   = Inr [index_action ''siteaposdocsen'' (JStr ''x''),
          JObj [(''title'', JStr ''t''), (''titleESExact'', JStr ''t''), (''_idESExact'', JStr ''x'')]]"
  by code_simp

text \<open>
  C1. The shadow key of a field is the field's name followed by \<^verbatim>\<open>ESExact\<close>. When no
  configured field reads as a function on the document, the projection returns a body;
  for a configured field whose shadow key is not itself a configured field, that body binds
  the shadow key to the document's value, unchanged, exactly when the value passes the
  projector's test and is falsy (\<^verbatim>\<open>undefined\<close>, \<^verbatim>\<open>false\<close>, \<open>0\<close>, \<open>NaN\<close>, the empty string)
  or has a \<^verbatim>\<open>JSON.stringify\<close> text of fewer than 4096 code units; otherwise the body has
  no such key. For the document \<^verbatim>\<open>{_id: "x", title: "Hello World", workflowLocale: "en"}\<close>
  and the field set \<^verbatim>\<open>[title]\<close>, in a state whose table has not seen the index name of
  \<^verbatim>\<open>en\<close>, the result is the one command for that index with the body
  \<^verbatim>\<open>{title: "Hello World", titleESExact: "Hello World"}\<close>.
\<close>

theorem shadow_key_iff:
  "((\<forall>g \<in> set fs. getprop doc g \<noteq> JFunction) \<and> f \<in> set fs \<and> exact_key f \<notin> set fs \<longrightarrow>
      exact_key f = f @ ''ESExact''
      \<and> (\<exists>body. project fs doc = Inr body
           \<and> map_of body (exact_key f) =
               (if good (getprop doc f)
                   \<and> (\<not> truthy (getprop doc f)
                       \<or> (\<exists>s. stringify (getprop doc f) = Some s \<and> length s < 4096))
                then Some (getprop doc f) else None)))
   \<and> (fields_list self = [''title''] \<and> indexNamesSeen self (docIndex self @ ''en'') = None \<longrightarrow>
      getBulkIndexCommandsForDoc self
        [(''_id'', JStr ''x''), (''title'', JStr ''Hello World''), (''workflowLocale'', JStr ''en'')]
      = Inr ([index_action (docIndex self @ ''en'') (JStr ''x''),
              JObj [(''title'', JStr ''Hello World''), (''titleESExact'', JStr ''Hello World'')]],
             self\<lparr>indexNamesSeen := (indexNamesSeen self)(docIndex self @ ''en'' \<mapsto> ''en'')\<rparr>))"
proof (intro conjI impI)
  assume a: "(\<forall>g \<in> set fs. getprop doc g \<noteq> JFunction) \<and> f \<in> set fs \<and> exact_key f \<notin> set fs"
  then obtain body where b: "project fs doc = Inr body"
    using project_returns_iff [of fs doc] by blast
  have "map_of body (exact_key f) =
         (if good (getprop doc f)
             \<and> (\<not> truthy (getprop doc f)
                 \<or> (\<exists>s. stringify (getprop doc f) = Some s \<and> length s < 4096))
          then Some (getprop doc f) else None)"
    using a shadow_key_value [OF b, of f] shadow_key_absent [OF b, of f]
    unfolding exact_ok_unfold [symmetric] by auto
  with b show "\<exists>body. project fs doc = Inr body
           \<and> map_of body (exact_key f) =
               (if good (getprop doc f)
                   \<and> (\<not> truthy (getprop doc f)
                       \<or> (\<exists>s. stringify (getprop doc f) = Some s \<and> length s < 4096))
                then Some (getprop doc f) else None)"
    by blast
next
  show "exact_key f = f @ ''ESExact''"
    by (simp add: exact_key_def)
next
  assume a: "fields_list self = [''title''] \<and> indexNamesSeen self (docIndex self @ ''en'') = None"
  have p: "project [''title'']
      [(''_id'', JStr ''x''), (''title'', JStr ''Hello World''), (''workflowLocale'', JStr ''en'')]
    = Inr [(''title'', JStr ''Hello World''), (''titleESExact'', JStr ''Hello World'')]"
    by code_simp
  from a have "getLocaleIndex self ''en'' =
      Inr (docIndex self @ ''en'',
           self\<lparr>indexNamesSeen := (indexNamesSeen self)(docIndex self @ ''en'' \<mapsto> ''en'')\<rparr>)"
    using getLocaleIndex_unseen [of self "''en''"] by (simp add: lower_en strip_en)
  with a p show "getBulkIndexCommandsForDoc self
        [(''_id'', JStr ''x''), (''title'', JStr ''Hello World''), (''workflowLocale'', JStr ''en'')]
      = Inr ([index_action (docIndex self @ ''en'') (JStr ''x''),
              JObj [(''title'', JStr ''Hello World''), (''titleESExact'', JStr ''Hello World'')]],
             self\<lparr>indexNamesSeen := (indexNamesSeen self)(docIndex self @ ''en'' \<mapsto> ''en'')\<rparr>)"
    by (simp add: getBulkIndexCommandsForDoc_def getprop_def)
qed

theorem shadow_key_iff_witness:
  "getprop [(''_id'', JStr ''x''), (''title'', JStr ''Hello World'')] ''title'' \<noteq> JFunction
   \<and> ''title'' \<in> set [''title''] \<and> exact_key ''title'' \<notin> set [''title'']
   \<and> (\<exists>body. project [''title''] [(''_id'', JStr ''x''), (''title'', JStr ''Hello World'')] = Inr body
        \<and> map_of body ''titleESExact'' = Some (JStr ''Hello World''))
   \<and> fields_list \<lparr>fields_list = [''title''], docIndex = ''siteaposdocs'', indexNamesSeen = Map.empty,
        workflow = None\<rparr> = [''title'']
   \<and> getBulkIndexCommandsForDoc
        \<lparr>fields_list = [''title''], docIndex = ''siteaposdocs'', indexNamesSeen = Map.empty, workflow = None\<rparr>
        [(''_id'', JStr ''x''), (''title'', JStr ''Hello World''), (''workflowLocale'', JStr ''en'')]
      = Inr ([index_action ''siteaposdocsen'' (JStr ''x''),
              JObj [(''title'', JStr ''Hello World''), (''titleESExact'', JStr ''Hello World'')]],
             \<lparr>fields_list = [''title''], docIndex = ''siteaposdocs'',
              indexNamesSeen = [''siteaposdocsen'' \<mapsto> ''en''], workflow = None\<rparr>)"
proof -
  have g: "getprop [(''_id'', JStr ''x''), (''title'', JStr ''Hello World'')] ''title'' = JStr ''Hello World''"
    by (simp add: getprop_def)
  have h: "''title'' \<in> set [''title''] \<and> exact_key ''title'' \<notin> set [''title'']"
    by (simp add: exact_key_def)
  have v: "good (JStr ''Hello World'')
      \<and> (\<exists>s. stringify (JStr ''Hello World'') = Some s \<and> length s < 4096)"
    by (simp add: json_quote_def json_escape_def)
  show ?thesis
    using h v
      shadow_key_iff [of "[''title'']"
        "[(''_id'', JStr ''x''), (''title'', JStr ''Hello World'')]" "''title''"
        "\<lparr>fields_list = [''title''], docIndex = ''siteaposdocs'', indexNamesSeen = Map.empty,
          workflow = None\<rparr>"]
    by (simp add: g exact_key_def)
qed

theorem shadow_key_counterexample:
  "map_sum id fst (getBulkIndexCommandsForDoc
     \<lparr>fields_list = [''title''], docIndex = ''siteaposdocs'', indexNamesSeen = Map.empty, workflow = None\<rparr>
     [(''_id'', JStr ''x''), (''title'', JStr ''Hello World''), (''workflowLocale'', JStr ''en'')])
   = Inr [index_action ''siteaposdocsen'' (JStr ''x''),
          JObj [(''title'', JStr ''Hello World''), (''titleESExact'', JStr ''Hello World'')]]
   \<and> project [''title'']
        [(''_id'', JStr ''x''), (''title'', JStr ''Hello World''), (''workflowLocale'', JStr ''en'')]
     = Inr [(''title'', JStr ''Hello World''), (''titleESExact'', JStr ''Hello World'')]
   \<and> project [''title'', ''titleESExact'']
        [(''_id'', JStr ''x''), (''title'', JStr ''t''), (''titleESExact'', JStr ''v'')]
     = Inr [(''title'', JStr ''t''), (''titleESExact'', JStr ''v''), (''titleESExactESExact'', JStr ''v'')]
   \<and> project [''title'', ''constructor''] [(''_id'', JStr ''x''), (''title'', JStr ''t'')]
     = Inl TypeError"
  by code_simp

text \<open>
  C5. When \<^verbatim>\<open>getBulkIndexCommandsForDoc\<close> returns, the projection has returned one body, and
  for a document whose \<^verbatim>\<open>workflowLocale\<close> is truthy (a string that is not empty) the commands
  are exactly one action descriptor for that locale's index followed by the body; for a
  document whose \<^verbatim>\<open>workflowLocale\<close> is falsy (absent or the empty string) they are one such
  pair per locale of the workflow module, in its order, or the one pair for \<^verbatim>\<open>default\<close> when
  there is no workflow module, and every pair carries the same body.
\<close>

theorem commands_per_locale:
  assumes "getBulkIndexCommandsForDoc self doc = Inr (commands, self')"
  shows "\<exists>body. project (fields_list self) doc = Inr body
       \<and> (if truthy (getprop doc ''workflowLocale'')
          then \<exists>loc. getprop doc ''workflowLocale'' = JStr loc
                 \<and> commands =
                     [index_action (docIndex self @ strip_non_az (toLowerCase loc)) (getprop doc ''_id''),
                      JObj body]
          else commands = concat (map (\<lambda>loc.
                 [index_action (docIndex self @ strip_non_az (toLowerCase loc)) (getprop doc ''_id''),
                  JObj body])
                 (case workflow self of None \<Rightarrow> [''default''] | Some ls \<Rightarrow> ls)))"
proof -
  from getBulkIndexCommandsForDoc_Inr [OF assms] obtain body where
    b: "project (fields_list self) doc = Inr body"
    and c: "commands = concat (map (\<lambda>loc.
            [index_action (docIndex self @ strip_non_az (toLowerCase loc)) (getprop doc ''_id''),
             JObj body])
          (if truthy (getprop doc ''workflowLocale'')
           then (case getprop doc ''workflowLocale'' of JStr loc \<Rightarrow> [loc] | _ \<Rightarrow> [])
           else (case workflow self of None \<Rightarrow> [''default''] | Some ls \<Rightarrow> ls)))"
    by blast
  show ?thesis
  proof (cases "truthy (getprop doc ''workflowLocale'')")
    case True
    with assms obtain loc where "getprop doc ''workflowLocale'' = JStr loc"
      by (auto simp: getBulkIndexCommandsForDoc_def Let_def split: jsval.splits sum.splits)
    with b c True show ?thesis by simp
  next
    case False
    with b c show ?thesis by simp
  qed
qed

theorem commands_per_locale_witness:
  "getBulkIndexCommandsForDoc
     \<lparr>fields_list = [''title''], docIndex = ''siteaposdocs'', indexNamesSeen = Map.empty,
      workflow = Some [''en'', ''fr'']\<rparr>
     [(''_id'', JStr ''x''), (''title'', JStr ''t'')]
   = Inr ([index_action ''siteaposdocsen'' (JStr ''x''),
           JObj [(''title'', JStr ''t''), (''titleESExact'', JStr ''t'')],
           index_action ''siteaposdocsfr'' (JStr ''x''),
           JObj [(''title'', JStr ''t''), (''titleESExact'', JStr ''t'')]],
          \<lparr>fields_list = [''title''], docIndex = ''siteaposdocs'',
           indexNamesSeen = [''siteaposdocsen'' \<mapsto> ''en'', ''siteaposdocsfr'' \<mapsto> ''fr''],
           workflow = Some [''en'', ''fr'']\<rparr>)
   \<and> (\<exists>body. project [''title''] [(''_id'', JStr ''x''), (''title'', JStr ''t'')] = Inr body
        \<and> [index_action ''siteaposdocsen'' (JStr ''x''),
            JObj [(''title'', JStr ''t''), (''titleESExact'', JStr ''t'')],
            index_action ''siteaposdocsfr'' (JStr ''x''),
            JObj [(''title'', JStr ''t''), (''titleESExact'', JStr ''t'')]]
           = [index_action (''siteaposdocs'' @ strip_non_az (toLowerCase ''en'')) (JStr ''x''), JObj body,
              index_action (''siteaposdocs'' @ strip_non_az (toLowerCase ''fr'')) (JStr ''x''), JObj body])"
proof -
  have p: "project [''title''] [(''_id'', JStr ''x''), (''title'', JStr ''t'')]
      = Inr [(''title'', JStr ''t''), (''titleESExact'', JStr ''t'')]"
    by code_simp
  have h: "getBulkIndexCommandsForDoc
     \<lparr>fields_list = [''title''], docIndex = ''siteaposdocs'', indexNamesSeen = Map.empty,
      workflow = Some [''en'', ''fr'']\<rparr>
     [(''_id'', JStr ''x''), (''title'', JStr ''t'')]
   = Inr ([index_action ''siteaposdocsen'' (JStr ''x''),
           JObj [(''title'', JStr ''t''), (''titleESExact'', JStr ''t'')],
           index_action ''siteaposdocsfr'' (JStr ''x''),
           JObj [(''title'', JStr ''t''), (''titleESExact'', JStr ''t'')]],
          \<lparr>fields_list = [''title''], docIndex = ''siteaposdocs'',
           indexNamesSeen = [''siteaposdocsen'' \<mapsto> ''en'', ''siteaposdocsfr'' \<mapsto> ''fr''],
           workflow = Some [''en'', ''fr'']\<rparr>)"
    by (simp add: getBulkIndexCommandsForDoc_def p getprop_def object_prototype_methods_def
        getLocaleIndex_def lower_en strip_en lower_fr strip_fr Let_def)
  show ?thesis
    using h commands_per_locale [OF h]
    by (auto simp: getprop_def object_prototype_methods_def)
qed

theorem commands_per_locale_counterexample:
  "map_sum id fst (getBulkIndexCommandsForDoc
     \<lparr>fields_list = [''title''], docIndex = ''siteaposdocs'', indexNamesSeen = Map.empty,
      workflow = Some [''en'', ''fr'']\<rparr>
     [(''_id'', JStr ''x''), (''title'', JStr ''t''), (''workflowLocale'', JStr '''')])
   = Inr [index_action ''siteaposdocsen'' (JStr ''x''),
          JObj [(''title'', JStr ''t''), (''titleESExact'', JStr ''t'')],
          index_action ''siteaposdocsfr'' (JStr ''x''),
          JObj [(''title'', JStr ''t''), (''titleESExact'', JStr ''t'')]]
   \<and> map_sum id fst (getBulkIndexCommandsForDoc
     \<lparr>fields_list = [''title''], docIndex = ''siteaposdocs'', indexNamesSeen = Map.empty,
      workflow = Some [''en-us'', ''en_us'']\<rparr>
     [(''_id'', JStr ''x''), (''title'', JStr ''t'')])
     = Inl (Error (collision_message ''en_us'' ''en-us''))
   \<and> map_sum id fst (getBulkIndexCommandsForDoc
     \<lparr>fields_list = [''title'', ''constructor''], docIndex = ''siteaposdocs'', indexNamesSeen = Map.empty,
      workflow = None\<rparr>
     [(''_id'', JStr ''x''), (''title'', JStr ''t'')])
     = Inl TypeError"
  by code_simp

section \<open>Claims about the locale index namer\<close>

text \<open>
  C8. \<^verbatim>\<open>getLocaleIndex\<close> returns \<^verbatim>\<open>self.docIndex\<close> followed by the locale in lower case without
  its characters outside a-z, and \<^verbatim>\<open>connect\<close> builds \<^verbatim>\<open>self.docIndex\<close> from the base name in
  lower case, without removing anything from it: for the base name \<^verbatim>\<open>my-site\<close> and the locale
  \<^verbatim>\<open>en\<close> the index name is \<^verbatim>\<open>my-siteaposdocsen\<close>, which is not made of lowercase letters only.
\<close>

theorem index_name_of_hyphenated_base:
  "map_sum id fst (getLocaleIndex
      \<lparr>fields_list = [''title''], docIndex = connect_docIndex (Some ''my-site'') ''apos'',
       indexNamesSeen = Map.empty, workflow = None\<rparr> ''en'')
   = Inr ''my-siteaposdocsen''
   \<and> \<not> list_all is_az ''my-siteaposdocsen''"
  by code_simp

text \<open>
  C4. Take two locales that fold to the same index name, in a state whose table does not
  hold that name. The first call of \<^verbatim>\<open>getLocaleIndex\<close> returns the name and records the locale
  in lower case. When the two locales differ in lower case, and the first is not empty in
  lower case, the second call raises at once the error whose message names the second and
  the first locale, both in lower case (the message does not hold the index name). When
  the two locales are equal in lower case, as are a locale and itself, the second call
  returns the name again and leaves the state as it was, so that no repetition raises.
\<close>

theorem second_colliding_locale_raises:
  assumes "indexNamesSeen self (docIndex self @ strip_non_az (toLowerCase l1)) = None"
    and "strip_non_az (toLowerCase l1) = strip_non_az (toLowerCase l2)"
  shows "\<exists>self1.
           getLocaleIndex self l1 = Inr (docIndex self @ strip_non_az (toLowerCase l1), self1)
         \<and> (toLowerCase l1 \<noteq> toLowerCase l2 \<and> toLowerCase l1 \<noteq> [] \<longrightarrow>
              getLocaleIndex self1 l2 =
                Inl (Error (''apostrophe-elasticsearch: the locale names '' @ toLowerCase l2 @ '' and ''
                  @ toLowerCase l1
                  @ '' cannot be distinguished purely by their lowercased letters. elasticsearch allows no other characters in index names.'')))
         \<and> (toLowerCase l1 = toLowerCase l2 \<longrightarrow>
              getLocaleIndex self1 l2 = Inr (docIndex self @ strip_non_az (toLowerCase l1), self1))"
proof -
  let ?name = "docIndex self @ strip_non_az (toLowerCase l1)"
  let ?self1 = "self\<lparr>indexNamesSeen := (indexNamesSeen self)(?name \<mapsto> toLowerCase l1)\<rparr>"
  have 1: "getLocaleIndex self l1 = Inr (?name, ?self1)"
    using assms(1) by (rule getLocaleIndex_unseen)
  have 2: "getLocaleIndex ?self1 l2 =
      Inl (Error (''apostrophe-elasticsearch: the locale names '' @ toLowerCase l2 @ '' and ''
        @ toLowerCase l1
        @ '' cannot be distinguished purely by their lowercased letters. elasticsearch allows no other characters in index names.''))"
    if "toLowerCase l1 \<noteq> toLowerCase l2" and "toLowerCase l1 \<noteq> []"
    using that assms(2) by (simp add: getLocaleIndex_def Let_def collision_message_def)
  have 3: "getLocaleIndex ?self1 l2 = Inr (?name, ?self1)"
    if "toLowerCase l1 = toLowerCase l2"
    using that by (simp add: getLocaleIndex_def Let_def)
  from 1 2 3 show ?thesis by blast
qed

theorem second_colliding_locale_raises_witness:
  "indexNamesSeen \<lparr>fields_list = [''title''], docIndex = ''siteaposdocs'', indexNamesSeen = Map.empty,
      workflow = None\<rparr> (''siteaposdocs'' @ strip_non_az (toLowerCase ''en-US'')) = None
   \<and> strip_non_az (toLowerCase ''en-US'') = strip_non_az (toLowerCase ''en_us'')
   \<and> toLowerCase ''en-US'' \<noteq> toLowerCase ''en_us'' \<and> toLowerCase ''en-US'' \<noteq> []
   \<and> (\<exists>self1.
         getLocaleIndex \<lparr>fields_list = [''title''], docIndex = ''siteaposdocs'',
           indexNamesSeen = Map.empty, workflow = None\<rparr> ''en-US'' = Inr (''siteaposdocsenus'', self1)
       \<and> getLocaleIndex self1 ''en_us'' =
           Inl (Error ''apostrophe-elasticsearch: the locale names en_us and en-us cannot be distinguished purely by their lowercased letters. elasticsearch allows no other characters in index names.''))"
proof -
  have l: "toLowerCase ''en-US'' = ''en-us''" "toLowerCase ''en_us'' = ''en_us''"
    "strip_non_az ''en-us'' = ''enus''" "strip_non_az ''en_us'' = ''enus''"
    by code_simp+
  have h1: "indexNamesSeen \<lparr>fields_list = [''title''], docIndex = ''siteaposdocs'',
      indexNamesSeen = Map.empty, workflow = None\<rparr>
      (docIndex \<lparr>fields_list = [''title''], docIndex = ''siteaposdocs'',
      indexNamesSeen = Map.empty, workflow = None\<rparr> @ strip_non_az (toLowerCase ''en-US'')) = None"
    by simp
  have h2: "strip_non_az (toLowerCase ''en-US'') = strip_non_az (toLowerCase ''en_us'')"
    by (simp add: l)
  show ?thesis
    using second_colliding_locale_raises [OF h1 h2]
    by (simp add: l)
qed

theorem second_colliding_locale_raises_counterexample:
  "map_sum id fst (map_getLocaleIndex
      \<lparr>fields_list = [''title''], docIndex = ''siteaposdocs'', indexNamesSeen = Map.empty,
       workflow = None\<rparr> [''EN'', ''en''])
   = Inr [''siteaposdocsen'', ''siteaposdocsen'']
   \<and> map_sum id fst (map_getLocaleIndex
      \<lparr>fields_list = [''title''], docIndex = ''siteaposdocs'', indexNamesSeen = Map.empty,
       workflow = None\<rparr> ['''', ''-''])
   = Inr [''siteaposdocs'', ''siteaposdocs'']
   \<and> map_sum id fst (map_getLocaleIndex
      \<lparr>fields_list = [''title''], docIndex = ''siteaposdocs'', indexNamesSeen = Map.empty,
       workflow = None\<rparr> [''en-US'', ''en_us''])
   = Inl (Error ''apostrophe-elasticsearch: the locale names en_us and en-us cannot be distinguished purely by their lowercased letters. elasticsearch allows no other characters in index names.'')
   \<and> \<not> sublist ''siteaposdocsenus'' ''apostrophe-elasticsearch: the locale names en_us and en-us cannot be distinguished purely by their lowercased letters. elasticsearch allows no other characters in index names.''"
  by code_simp


section \<open>Properties of the index stage\<close>

lemma filter_above_nth:
  fixes f :: "'a \<Rightarrow> 'b::linorder"
  assumes "sorted (map f xs)" and "distinct (map f xs)" and "0 < k" and "k \<le> length xs"
  shows "filter (\<lambda>d. f (xs ! (k - 1)) < f d) xs = drop k xs"
proof -
  have low: "\<not> f (xs ! (k - 1)) < f y" if "y \<in> set (take k xs)" for y
  proof -
    from that obtain i where i: "i < k" "y = xs ! i"
      using assms(4) by (auto simp: in_set_conv_nth)
    then have "map f xs ! i \<le> map f xs ! (k - 1)"
      using assms(1,3,4) by (intro sorted_nth_mono) auto
    with i assms(3,4) show ?thesis by simp
  qed
  have high: "f (xs ! (k - 1)) < f y" if "y \<in> set (drop k xs)" for y
  proof -
    from that obtain j where j: "k \<le> j" "j < length xs" "y = xs ! j"
      by (auto simp: in_set_conv_nth) (metis add.commute le_add2 less_diff_conv)
    then have "map f xs ! (k - 1) \<le> map f xs ! j"
      using assms(1,3) by (intro sorted_nth_mono) auto
    moreover have "(map f xs ! (k - 1) = map f xs ! j) = (k - 1 = j)"
      using assms(2,3) j by (intro nth_eq_iff_index_eq) auto
    then have "map f xs ! (k - 1) \<noteq> map f xs ! j"
      using assms(3) j by simp
    ultimately show ?thesis
      using j assms(3,4) by simp
  qed
  have "filter (\<lambda>d. f (xs ! (k - 1)) < f d) (take k xs @ drop k xs) = drop k xs"
    unfolding filter_append using low high by (simp add: filter_empty_conv)
  then show ?thesis by simp
qed


lemma ceil_step:
  fixes M B :: nat
  assumes "0 < B" and "0 < M"
  shows "(M + B - 1) div B = Suc ((M - min B M + B - 1) div B)"
proof (cases "M \<le> B")
  case True
  then have "M - min B M + B - 1 = B - 1"
    by simp
  moreover have "(B - 1) div B = 0"
    using assms(1) by simp
  moreover have "(M + B - 1) div B = 1"
  proof -
    have e: "M + B - 1 = (M - 1) + B" using assms(2) by simp
    have "((M - 1) + B) div B = (M - 1) div B + 1"
      using assms(1) by (simp add: div_add_self2)
    then have "(M + B - 1) div B = (M - 1) div B + 1"
      unfolding e .
    moreover have "(M - 1) div B = 0" using True assms by simp
    ultimately show ?thesis by simp
  qed
  ultimately show ?thesis by simp
next
  case False
  then have "M - min B M + B - 1 = M - 1"
    by simp
  moreover have e: "M + B - 1 = (M - 1) + B" using assms(2) by simp
  have "((M - 1) + B) div B = (M - 1) div B + 1"
    using assms(1) by (simp add: div_add_self2)
  then have "(M + B - 1) div B = (M - 1) div B + 1"
    unfolding e .
  ultimately show ?thesis by simp
qed

lemma id_gt_string_id:
  assumes "\<exists>s. getprop d ''_id'' = JStr s"
  shows "id_gt l d \<longleftrightarrow> l < string_id d"
  using assms by (auto simp: id_gt_def string_id_def)

lemma next_page_count:
  assumes ids: "\<forall>d \<in> set store. \<exists>s. getprop d ''_id'' = JStr s"
    and dist: "distinct (map string_id store)"
    and docs: "docs = find_page store l B" and ne: "docs \<noteq> []"
  shows "length docs = min B (length (filter (id_gt l) store))"
    and "length (filter (id_gt (string_id (last docs))) store)
         = length (filter (id_gt l) store) - length docs"
proof -
  let ?S = "sort_key string_id (filter (id_gt l) store)"
  let ?k = "min B (length ?S)"
  have len: "length docs = ?k"
    by (simp add: docs find_page_def)
  then show "length docs = min B (length (filter (id_gt l) store))"
    by simp
  from ne have "0 < length docs"
    by simp
  then have k: "0 < ?k" "?k \<le> length ?S"
    unfolding len by simp_all
  have srt: "sorted (map string_id ?S)"
    by (rule sorted_sort_key)
  have "distinct (map string_id (filter (id_gt l) store))"
    using dist by (rule distinct_map_filter)
  then have dst: "distinct (map string_id ?S)"
    by (simp add: distinct_map)
  have "last docs = docs ! (?k - 1)"
    using ne len by (simp add: last_conv_nth)
  also have "\<dots> = ?S ! (?k - 1)"
  proof -
    have "?k - 1 < B"
      using k(1) by arith
    then show ?thesis
      unfolding docs find_page_def by (rule nth_take)
  qed
  finally have last: "last docs = ?S ! (?k - 1)" .
  have mem: "last docs \<in> set (filter (id_gt l) store)"
    using k unfolding last by (metis (no_types, lifting) diff_less less_le_trans nth_mem set_sort zero_less_one)
  then have lt: "l < string_id (last docs)"
    using ids by (auto simp: id_gt_string_id)
  have "filter (id_gt (string_id (last docs))) store
      = filter (id_gt (string_id (last docs))) (filter (id_gt l) store)"
    using lt by (auto simp: id_gt_def split: jsval.splits intro!: filter_cong)
  then have "length (filter (id_gt (string_id (last docs))) store)
      = length (sort_key string_id (filter (id_gt (string_id (last docs))) (filter (id_gt l) store)))"
    by simp
  also have "\<dots> = length (filter (id_gt (string_id (last docs))) ?S)"
    by (simp only: filter_sort)
  also have "filter (id_gt (string_id (last docs))) ?S
      = filter (\<lambda>d. string_id (?S ! (?k - 1)) < string_id d) ?S"
    unfolding last using ids by (intro filter_cong) (auto simp: id_gt_string_id)
  also have "\<dots> = drop ?k ?S"
    using srt dst k by (rule filter_above_nth)
  finally show "length (filter (id_gt (string_id (last docs))) store)
         = length (filter (id_gt l) store) - length docs"
    using len by simp
qed


lemma nextBatch_fetches:
  "nextBatch bulk store B self l fs = (fetches, Inr self') \<Longrightarrow>
   \<forall>d \<in> set store. \<exists>s. getprop d ''_id'' = JStr s \<Longrightarrow>
   distinct (map string_id store) \<Longrightarrow> 0 < B \<Longrightarrow>
    \<exists>new. fetches = fs @ new
      \<and> length new = (length (filter (id_gt l) store) + B - 1) div B + 1
      \<and> fst (hd new) = l
      \<and> snd (last new) = []
      \<and> (\<forall>i < length new. snd (new ! i) = find_page store (fst (new ! i)) B)
      \<and> (\<forall>i. Suc i < length new \<longrightarrow>
            snd (new ! i) \<noteq> [] \<and> fst (new ! Suc i) = string_id (last (snd (new ! i))))"
proof (induction bulk store B self l fs rule: nextBatch.induct)
  case (1 bulk store B self l fs)
  let ?docs = "find_page store l B"
  let ?M = "length (filter (id_gt l) store)"
  note ids = "1.prems"(2) and dist = "1.prems"(3) and B = "1.prems"(4)
  show ?case
  proof (cases "?docs = []")
    case True
    with "1.prems"(1) have f: "fetches = fs @ [(l, [])]"
      by (simp add: Let_def)
    have "length ?docs = min B ?M"
      by (simp add: find_page_def)
    with True B have "?M = 0"
      by (auto simp: min_def split: if_splits)
    then have "(?M + B - 1) div B + 1 = 1"
      using B by simp
    with f True show ?thesis
      by (intro exI [of _ "[(l, [])]"]) simp
  next
    case False
    with "1.prems"(1) obtain self1 where
      ib: "indexBatch bulk self ?docs = Inr self1"
      and nb: "nextBatch bulk store B self1 (string_id (last ?docs)) (fs @ [(l, ?docs)])
                 = (fetches, Inr self')"
      by (auto simp: Let_def split: sum.splits)
    from "1.IH" [OF refl refl False ib nb ids dist B]
    obtain new where
      n1: "fetches = (fs @ [(l, ?docs)]) @ new"
      and n2: "length new = (length (filter (id_gt (string_id (last ?docs))) store) + B - 1) div B + 1"
      and n3: "fst (hd new) = string_id (last ?docs)"
      and n4: "snd (last new) = []"
      and n5: "\<forall>i < length new. snd (new ! i) = find_page store (fst (new ! i)) B"
      and n6: "\<forall>i. Suc i < length new \<longrightarrow>
            snd (new ! i) \<noteq> [] \<and> fst (new ! Suc i) = string_id (last (snd (new ! i)))"
      by blast
    from n2 have ne: "new \<noteq> []"
      by auto
    have len: "length ?docs = min B ?M"
      and cnt: "length (filter (id_gt (string_id (last ?docs))) store) = ?M - length ?docs"
      using next_page_count [OF ids dist refl False] by simp_all
    have "0 < ?M"
      using False len by auto
    from ceil_step [OF B this] n2 len cnt
    have l2: "length ((l, ?docs) # new) = (?M + B - 1) div B + 1"
      by simp
    have l5: "\<forall>i < length ((l, ?docs) # new).
        snd (((l, ?docs) # new) ! i) = find_page store (fst (((l, ?docs) # new) ! i)) B"
      using n5 by (auto simp: nth_Cons split: nat.splits)
    have l6: "\<forall>i. Suc i < length ((l, ?docs) # new) \<longrightarrow>
        snd (((l, ?docs) # new) ! i) \<noteq> []
        \<and> fst (((l, ?docs) # new) ! Suc i) = string_id (last (snd (((l, ?docs) # new) ! i)))"
    proof (intro allI impI)
      fix i
      assume "Suc i < length ((l, ?docs) # new)"
      then show "snd (((l, ?docs) # new) ! i) \<noteq> []
        \<and> fst (((l, ?docs) # new) ! Suc i) = string_id (last (snd (((l, ?docs) # new) ! i)))"
        using n6 n3 ne False by (cases i) (simp_all add: hd_conv_nth)
    qed
    show ?thesis
      using n1 l2 n4 ne l5 l6 by (intro exI [of _ "(l, ?docs) # new"]) simp
  qed
qed

lemma batchSize_of_pos: "0 < batchSize_of opt_batchSize"
  by (simp add: batchSize_of_def split: option.splits)

section \<open>Claims about the index stage\<close>

text \<open>
  C3. Let the store hold N documents whose identifiers are strings, none empty and no two
  equal, let B be the batch size, and let the index stage end without an error. Then it has
  issued exactly \<open>\<lceil>N/B\<rceil> + 1\<close> fetch calls. The first asks for the identifiers above the empty
  string, each later one for those above the identifier of the last document of the page
  before; every call gets the documents with such identifiers in ascending order, at most B
  of them; every page but the last holds a document, and the last page is empty, which
  ends the stage.
\<close>

theorem index_fetch_calls:
  assumes "index bulk store opt_batchSize self = (fetches, Inr self')"
    and "\<forall>d \<in> set store. \<exists>s. getprop d ''_id'' = JStr s \<and> s \<noteq> []"
    and "distinct (map string_id store)"
  shows "length fetches
           = (length store + batchSize_of opt_batchSize - 1) div batchSize_of opt_batchSize + 1
       \<and> fst (hd fetches) = []
       \<and> snd (last fetches) = []
       \<and> (\<forall>i < length fetches.
             snd (fetches ! i) = take (batchSize_of opt_batchSize)
               (sort_key string_id (filter (id_gt (fst (fetches ! i))) store)))
       \<and> (\<forall>i. Suc i < length fetches \<longrightarrow>
             snd (fetches ! i) \<noteq> []
             \<and> fst (fetches ! Suc i) = string_id (last (snd (fetches ! i))))"
proof -
  let ?B = "batchSize_of opt_batchSize"
  have ids: "\<forall>d \<in> set store. \<exists>s. getprop d ''_id'' = JStr s"
    using assms(2) by blast
  have "id_gt [] d" if "d \<in> set store" for d
  proof -
    from that assms(2) obtain s where "getprop d ''_id'' = JStr s" and "s \<noteq> []"
      by blast
    then show ?thesis
      by (cases s) (simp_all add: id_gt_def)
  qed
  then have "filter (id_gt []) store = store"
    by (simp add: filter_id_conv)
  then have all: "length (filter (id_gt []) store) = length store"
    by simp
  from assms(1) have "nextBatch bulk store ?B self [] [] = (fetches, Inr self')"
    by (simp add: index_def)
  from nextBatch_fetches [OF this ids assms(3) batchSize_of_pos]
  obtain new where e: "fetches = [] @ new"
    and p: "length new = (length store + ?B - 1) div ?B + 1 \<and> fst (hd new) = []
      \<and> snd (last new) = []
      \<and> (\<forall>i < length new.
            snd (new ! i) = take ?B (sort_key string_id (filter (id_gt (fst (new ! i))) store)))
      \<and> (\<forall>i. Suc i < length new \<longrightarrow>
            snd (new ! i) \<noteq> [] \<and> fst (new ! Suc i) = string_id (last (snd (new ! i))))"
    unfolding all find_page_def by blast
  from e have f: "fetches = new"
    by simp
  show ?thesis
    unfolding f by (rule p)
qed

theorem index_fetch_calls_witness:
  "distinct (map string_id [[(''_id'', JStr ''c'')], [(''_id'', JStr ''a'')], [(''_id'', JStr ''b'')]])
   \<and> fst (index (\<lambda>commands. None)
        [[(''_id'', JStr ''c'')], [(''_id'', JStr ''a'')], [(''_id'', JStr ''b'')]] (Some 2)
        \<lparr>fields_list = [''title''], docIndex = ''siteaposdocs'', indexNamesSeen = Map.empty,
         workflow = None\<rparr>)
     = [('''', [[(''_id'', JStr ''a'')], [(''_id'', JStr ''b'')]]), (''b'', [[(''_id'', JStr ''c'')]]), (''c'', [])]
   \<and> \<not> isl (snd (index (\<lambda>commands. None)
        [[(''_id'', JStr ''c'')], [(''_id'', JStr ''a'')], [(''_id'', JStr ''b'')]] (Some 2)
        \<lparr>fields_list = [''title''], docIndex = ''siteaposdocs'', indexNamesSeen = Map.empty,
         workflow = None\<rparr>))
   \<and> length [('''', [[(''_id'', JStr ''a'')], [(''_id'', JStr ''b'')]]), (''b'', [[(''_id'', JStr ''c'')]]),
        (''c'', [] :: jsobject list)]
     = (length [[(''_id'', JStr ''c'')], [(''_id'', JStr ''a'')], [(''_id'', JStr ''b'')]]
        + batchSize_of (Some 2) - 1) div batchSize_of (Some 2) + 1"
proof -
  let ?store = "[[(''_id'', JStr ''c'')], [(''_id'', JStr ''a'')], [(''_id'', JStr ''b'')]]"
  let ?self = "\<lparr>fields_list = [''title''], docIndex = ''siteaposdocs'', indexNamesSeen = Map.empty,
         workflow = None\<rparr>"
  let ?fetches = "[('''', [[(''_id'', JStr ''a'')], [(''_id'', JStr ''b'')]]),
                   (''b'', [[(''_id'', JStr ''c'')]]), (''c'', [] :: jsobject list)]"
  let ?r = "index (\<lambda>commands. None) ?store (Some 2) ?self"
  have run: "fst ?r = ?fetches \<and> \<not> isl (snd ?r)"
    by code_simp
  then have "snd ?r = Inr (projr (snd ?r))"
    by simp
  with run have h1: "?r = (?fetches, Inr (projr (snd ?r)))"
    by (metis prod.collapse)
  have h2: "\<forall>d \<in> set ?store. \<exists>s. getprop d ''_id'' = JStr s \<and> s \<noteq> []"
    by (simp add: getprop_def)
  have h3: "distinct (map string_id ?store)"
    by (simp add: string_id_def getprop_def)
  from index_fetch_calls [OF h1 h2 h3] have "length ?fetches
      = (length ?store + batchSize_of (Some 2) - 1) div batchSize_of (Some 2) + 1"
    by blast
  with run h3 show ?thesis
    by blast
qed

theorem index_fetch_calls_counterexample:
  "length (fst (index (\<lambda>commands. None)
        [[(''_id'', JStr ''c'')], [(''_id'', JStr ''a'')], [(''_id'', JStr ''b'')]] (Some 2)
        \<lparr>fields_list = [''title''], docIndex = ''siteaposdocs'', indexNamesSeen = Map.empty,
         workflow = None\<rparr>)) = 3
   \<and> \<not> isl (snd (index (\<lambda>commands. None)
        [[(''_id'', JStr ''c'')], [(''_id'', JStr ''a'')], [(''_id'', JStr ''b'')]] (Some 2)
        \<lparr>fields_list = [''title''], docIndex = ''siteaposdocs'', indexNamesSeen = Map.empty,
         workflow = None\<rparr>))
   \<and> (length [[(''_id'', JStr ''c'')], [(''_id'', JStr ''a'')], [(''_id'', JStr ''b'')]]
        + batchSize_of (Some 2) - 1) div batchSize_of (Some 2) = 2"
  by code_simp


section \<open>Properties of the reindex task\<close>

text \<open>
  When the four stages have all called back, the task calls back with the result of the
  series, and the last event is the release of the lock.
\<close>

lemma withLock_called_back:
  assumes "fn (w\<lparr>events := events w @ [Acquired name]\<rparr>) = (CalledBack result, w')"
  shows "withLock name fn w = (CalledBack result, w'\<lparr>events := events w' @ [Released name]\<rparr>)"
  using assms by (simp add: withLock_def)

text \<open>When a stage has thrown, the events end with the start of that stage.\<close>

lemma withLock_threw:
  assumes "fn (w\<lparr>events := events w @ [Acquired name]\<rparr>) = (Threw e, w')"
  shows "withLock name fn w = (Threw e, w')"
  using assms by (simp add: withLock_def)

text \<open>
  The task as a whole. When it calls back, the stages that were started are the first
  ones of the four, all four when there is no error, and the lock has been released after
  the last of them. When it ends on an exception, the stages that were started are again
  the first ones of the four, and nothing follows the start of the stage that threw.
\<close>

lemma reindexTask_called_back:
  assumes "reindexTask drop_stage create_stage index_stage refresh_stage w = (CalledBack result, w')"
  shows "(result = None \<longrightarrow>
            events w' = events w @
              [Acquired ''apostrophe-elasticsearch-reindex'', Ran ''dropIndexes'', Ran ''createIndexes'',
               Ran ''index'', Ran ''refresh'', Released ''apostrophe-elasticsearch-reindex''])
       \<and> (events w' = events w @
              [Acquired ''apostrophe-elasticsearch-reindex'', Ran ''dropIndexes'',
               Released ''apostrophe-elasticsearch-reindex'']
          \<or> events w' = events w @
              [Acquired ''apostrophe-elasticsearch-reindex'', Ran ''dropIndexes'', Ran ''createIndexes'',
               Released ''apostrophe-elasticsearch-reindex'']
          \<or> events w' = events w @
              [Acquired ''apostrophe-elasticsearch-reindex'', Ran ''dropIndexes'', Ran ''createIndexes'',
               Ran ''index'', Released ''apostrophe-elasticsearch-reindex'']
          \<or> events w' = events w @
              [Acquired ''apostrophe-elasticsearch-reindex'', Ran ''dropIndexes'', Ran ''createIndexes'',
               Ran ''index'', Ran ''refresh'', Released ''apostrophe-elasticsearch-reindex''])"
  using assms
  by (auto simp: reindexTask_def withLock_def run_stage_def
      split: prod.splits outcome.splits option.splits)

lemma reindexTask_threw:
  assumes "reindexTask drop_stage create_stage index_stage refresh_stage w = (Threw e, w')"
  shows "events w' = events w @
              [Acquired ''apostrophe-elasticsearch-reindex'', Ran ''dropIndexes'']
          \<or> events w' = events w @
              [Acquired ''apostrophe-elasticsearch-reindex'', Ran ''dropIndexes'', Ran ''createIndexes'']
          \<or> events w' = events w @
              [Acquired ''apostrophe-elasticsearch-reindex'', Ran ''dropIndexes'', Ran ''createIndexes'',
               Ran ''index'']
          \<or> events w' = events w @
              [Acquired ''apostrophe-elasticsearch-reindex'', Ran ''dropIndexes'', Ran ''createIndexes'',
               Ran ''index'', Ran ''refresh'']"
  using assms
  by (auto simp: reindexTask_def withLock_def run_stage_def
      split: prod.splits outcome.splits option.splits)

lemma lower_es: "toLowerCase ''es'' = ''es''"
  by code_simp

lemma lower_es_419: "toLowerCase ''es-419'' = ''es-419''"
  by code_simp

lemma strip_es: "strip_non_az ''es'' = ''es''"
  by code_simp

lemma strip_es_419: "strip_non_az ''es-419'' = ''es''"
  by code_simp

section \<open>Claims about the reindex task\<close>

text \<open>
  C6. The reindex task takes the lock \<^verbatim>\<open>apostrophe-elasticsearch-reindex\<close>, runs
  \<^verbatim>\<open>dropIndexes\<close>, \<^verbatim>\<open>createIndexes\<close>, \<^verbatim>\<open>index\<close> and \<^verbatim>\<open>refresh\<close> in this order, stops at the first
  stage that fails, and is to release the lock on every exit path. With the workflow locales
  \<^verbatim>\<open>es\<close> and \<^verbatim>\<open>es-419\<close>, which both give the index name ending in \<^verbatim>\<open>es\<close>, and a search engine
  that answers every call without an error, \<^verbatim>\<open>createIndexes\<close> throws the collision error of
  \<^verbatim>\<open>getLocaleIndex\<close> at its second locale. The task then ends on that exception, whatever the
  last two stages are: they are not run, and the lock that was acquired is not released.
\<close>

theorem reindex_collision_keeps_lock:
  "fst (reindexTask
          (dropIndexes \<lparr>cat_indices = Inr [], indices_delete = (\<lambda>indexes. None),
                        indices_create = (\<lambda>indexName. None)\<rparr>)
          (createIndexes \<lparr>cat_indices = Inr [], indices_delete = (\<lambda>indexes. None),
                          indices_create = (\<lambda>indexName. None)\<rparr>)
          index_stage refresh
          \<lparr>events = [],
           inner = \<lparr>fields_list = [''title''], docIndex = ''siteaposdocs'', indexNamesSeen = Map.empty,
                    workflow = Some [''es'', ''es-419'']\<rparr>\<rparr>)
     = Threw (Error (collision_message ''es-419'' ''es''))
   \<and> events (snd (reindexTask
          (dropIndexes \<lparr>cat_indices = Inr [], indices_delete = (\<lambda>indexes. None),
                        indices_create = (\<lambda>indexName. None)\<rparr>)
          (createIndexes \<lparr>cat_indices = Inr [], indices_delete = (\<lambda>indexes. None),
                          indices_create = (\<lambda>indexName. None)\<rparr>)
          index_stage refresh
          \<lparr>events = [],
           inner = \<lparr>fields_list = [''title''], docIndex = ''siteaposdocs'', indexNamesSeen = Map.empty,
                    workflow = Some [''es'', ''es-419'']\<rparr>\<rparr>))
     = [Acquired ''apostrophe-elasticsearch-reindex'', Ran ''dropIndexes'', Ran ''createIndexes'']"
  by (simp add: reindexTask_def withLock_def run_stage_def dropIndexes_def createIndexes_def
      getLocales_def getLocaleIndex_def lower_es lower_es_419 strip_es strip_es_419 Let_def)

section \<open>Properties of the merge of settings\<close>










section \<open>Claims about the settings of a locale's index\<close>




end
